theory Spec2Isabelle
  imports Main "HOL-Library.Word" "HOL-Library.Multiset" "HOL-Library.Sublist"
begin

unbundle bit_operations_syntax

section \<open>JavaScript strings and the built-ins the worker uses\<close>

text \<open>
  A JavaScript string is a sequence of UTF-16 code units; \<open>length\<close>, \<open>slice\<close>,
  \<open>charCodeAt\<close> and the mention offsets of the chat platform all count code units.
  Numbers that the worker uses as offsets are modelled as \<open>int\<close> (exact for every
  safe integer).
\<close>

type_synonym jschar = "16 word"
type_synonym jsstring = "jschar list"

text \<open>An ASCII literal as a JavaScript string.\<close>

definition js :: "string \<Rightarrow> jsstring" where
  "js s = map (\<lambda>c. of_nat (of_char c)) s"

text \<open>
  \<open>!s\<close> on a value of type \<open>string | undefined\<close>: the value is falsy when it is
  \<open>undefined\<close> (or \<open>null\<close>) or the empty string.
\<close>

fun falsy :: "jsstring option \<Rightarrow> bool" where
  "falsy None = True"
| "falsy (Some s) = (s = [])"

text \<open>
  The code units that \<open>String.prototype.trim\<close> strips: WhiteSpace and
  LineTerminator of ECMAScript (TAB, LF, VT, FF, CR, SP, NBSP, U+1680,
  U+2000..U+200A, U+2028, U+2029, U+202F, U+205F, U+3000, U+FEFF).
\<close>

definition isWhiteSpace :: "jschar \<Rightarrow> bool" where
  "isWhiteSpace c =
     (let n = unat c in
      (9 \<le> n \<and> n \<le> 13) \<or> n = 32 \<or> n = 160 \<or> n = 5760 \<or> (8192 \<le> n \<and> n \<le> 8202) \<or>
      n = 8232 \<or> n = 8233 \<or> n = 8239 \<or> n = 8287 \<or> n = 12288 \<or> n = 65279)"

definition trim :: "jsstring \<Rightarrow> jsstring" where
  "trim s = rev (dropWhile isWhiteSpace (rev (dropWhile isWhiteSpace s)))"

text \<open>
  \<open>String.prototype.slice(start, end)\<close> for integer arguments: a negative bound
  counts from the end, both bounds are clamped to \<open>[0, length]\<close>, and an empty
  range gives the empty string. \<open>sliceBound len k\<close> is the clamped bound.
\<close>

definition sliceBound :: "int \<Rightarrow> int \<Rightarrow> int" where
  "sliceBound len k = (if k < 0 then max (len + k) 0 else min k len)"

definition slice_js :: "jsstring \<Rightarrow> int \<Rightarrow> int option \<Rightarrow> jsstring" where
  "slice_js s start end =
     (let len = int (length s);
          from = sliceBound len start;
          to = (case end of None \<Rightarrow> len | Some e \<Rightarrow> sliceBound len e)
      in if from \<ge> to then [] else take (nat (to - from)) (drop (nat from) s))"

section \<open>Data model of the webhook (types of \<open>index.ts\<close>)\<close>

record Mentionee =
  index :: int
  length_m :: int
  userId_m :: "jsstring option"

record LineTextMessage =
  text_m :: jsstring
  mention :: "Mentionee list option"

section \<open>Question extraction\<close>

text \<open>
  \<open>[...mentionees].sort((a, b) => b.index - a.index)\<close>: a stable sort (ECMAScript
  2019) of a copy of the list, by descending \<open>index\<close>.
\<close>

definition sortByIndexDesc :: "Mentionee list \<Rightarrow> Mentionee list" where
  "sortByIndexDesc ms = sort_key (\<lambda>m. - index m) ms"

text \<open>The body of the loop: \<open>text.slice(0, m.index) + text.slice(m.index + m.length)\<close>.\<close>

definition removeSpan :: "jsstring \<Rightarrow> Mentionee \<Rightarrow> jsstring" where
  "removeSpan t m = slice_js t 0 (Some (index m)) @ slice_js t (index m + length_m m) None"

definition extractQuestion :: "LineTextMessage \<Rightarrow> jsstring" where
  "extractQuestion message =
     (case mention message of
        None \<Rightarrow> text_m message
      | Some mentionees \<Rightarrow> trim (foldl removeSpan (text_m message) (sortByIndexDesc mentionees)))"

section \<open>Signature comparison\<close>

text \<open>
  \<open>s.charCodeAt(i)\<close> as the 32-bit integer that the bitwise operators see: the
  code unit, or \<open>NaN\<close> (which the operators read as 0) out of range.
\<close>

definition charCodeAt :: "jsstring \<Rightarrow> nat \<Rightarrow> 32 word" where
  "charCodeAt s i = (if i < length s then ucast (s ! i) else 0)"

definition timingSafeEqual :: "jsstring \<Rightarrow> jsstring \<Rightarrow> bool" where
  "timingSafeEqual a b =
     (if length a \<noteq> length b then False
      else foldl (\<lambda>result i. result OR (charCodeAt a i XOR charCodeAt b i)) 0 [0..<length a] = 0)"


section \<open>Events, configuration and the host\<close>

record Source =
  userId :: "jsstring option"
  groupId :: "jsstring option"
  roomId :: "jsstring option"

text \<open>
  \<open>LineEvent["message"]\<close> is \<open>LineTextMessage | Record<string, unknown>\<close>:
  \<open>TextMessage\<close> is a message object whose \<open>type\<close> is \<open>"text"\<close>, \<open>OtherMessage\<close>
  any other message.
\<close>

datatype Message = TextMessage LineTextMessage | OtherMessage

text \<open>
  The fields of \<open>LineEvent\<close> that the worker reads. \<open>replyToken\<close> is \<open>None\<close>
  when the property is missing.
\<close>

record LineEvent =
  type_e :: jsstring
  replyToken :: "jsstring option"
  source :: Source
  webhookEventId :: jsstring
  message :: Message

text \<open>
  The configuration that decides control flow. The older worker (\<open>Env0\<close>) has no
  direct-chat flag; the other variables of \<open>Env\<close> only shape the outbound requests.
\<close>

record Env0 =
  LINE_CHANNEL_SECRET :: jsstring
  LINE_BOT_USER_ID :: jsstring

record Env = Env0 +
  ENABLE_DIRECT_CHAT_REPLY :: "jsstring option"

datatype json =
    JNull
  | JBool bool
  | JNumber int
  | JString jsstring
  | JArray "json list"
  | JObject "(jsstring \<times> json) list"

text \<open>
  What \<open>JSON.parse(bodyText) as LineWebhookRequest\<close> followed by
  \<open>payload.events.map\<close> can meet: a syntax error, a JSON value whose \<open>events\<close>
  property is not an array (in particular the property is missing, or the value is
  \<open>null\<close> or a primitive), or a batch of events.
\<close>

datatype parsed = JsonSyntaxError | JsonNoEvents | JsonBatch "LineEvent list"

text \<open>The outcome of a network \<open>fetch\<close>: the promise rejects, or a response arrives.\<close>

record HttpResponse =
  status :: nat
  json_body :: "json option"

datatype fetched = Rejected | Responded HttpResponse

text \<open>\<open>response.ok\<close> of the Fetch standard.\<close>

definition ok :: "HttpResponse \<Rightarrow> bool" where
  "ok r = (200 \<le> status r \<and> status r \<le> 299)"

text \<open>
  The host: the built-ins of the runtime that are no code of the repository, and the
  two collaborators behind \<open>fetch\<close>. The request to the answer backend is
  determined by the configuration and the question, the request to the chat platform
  by the configuration, the reply token and the text; \<open>openai\<close> and \<open>line\<close> give
  what comes back.
\<close>

record host =
  encode :: "jsstring \<Rightarrow> 8 word list"
  hmacSha256 :: "8 word list \<Rightarrow> 8 word list \<Rightarrow> 8 word list"
  btoa :: "jsstring \<Rightarrow> jsstring"
  JSON_parse :: "jsstring \<Rightarrow> parsed"
  toLowerCase :: "jsstring \<Rightarrow> jsstring"
  openai :: "jsstring \<Rightarrow> fetched"
  line :: "jsstring option \<Rightarrow> jsstring \<Rightarrow> fetched"

text \<open>
  The exceptions of the worker and of the built-ins it calls. \<open>OutOfRange\<close> is
  the failure of reading a string outside of its bounds (see \<open>substring\<close> below);
  no code of the worker raises it itself.
\<close>

datatype error =
    TypeError
  | SyntaxError
  | NetworkError
  | OutOfRange
  | OpenAIFailed nat
  | OpenAIEmpty
  | LineReplyFailed nat

datatype effect =
    FetchOpenAI jsstring
  | FetchLine "jsstring option" jsstring
  | LogParseFailed
  | LogEventError error
  | LogOpenAIError nat
  | LogLineError nat
  | WarnNoReplyToken jsstring

datatype Response = Response jsstring nat

section \<open>Question extraction with its failures\<close>

text \<open>
  The same function once more, on the values that reach it at run time and with every
  step that can fail written out. A message object has a text and may have a
  \<open>mention\<close> object, whose \<open>mentionees\<close> property may be missing (\<open>None\<close>).

  ECMAScript defines \<open>slice\<close> through the abstract operation \<open>substring of S from
  from to to\<close>, which requires \<open>0 \<le> from \<le> to \<le> length\<close>: \<open>substring\<close> fails
  outside of that range, and \<open>sliceChecked\<close> follows the steps of
  \<open>String.prototype.slice\<close>, which end in that operation.
\<close>

record MentionObject =
  mentionees :: "Mentionee list option"

record MessageObject =
  text_o :: jsstring
  mention_o :: "MentionObject option"

definition substring :: "jsstring \<Rightarrow> int \<Rightarrow> int \<Rightarrow> error + jsstring" where
  "substring s from to =
     (if 0 \<le> from \<and> from \<le> to \<and> to \<le> int (length s)
      then Inr (take (nat (to - from)) (drop (nat from) s))
      else Inl OutOfRange)"

definition sliceChecked :: "jsstring \<Rightarrow> int \<Rightarrow> int option \<Rightarrow> error + jsstring" where
  "sliceChecked s start end =
     (let len = int (length s);
          from = sliceBound len start;
          to = (case end of None \<Rightarrow> len | Some e \<Rightarrow> sliceBound len e)
      in if from \<ge> to then Inr [] else substring s from to)"

text \<open>The body of the loop; an exception in either slice leaves the function.\<close>

definition removeSpanChecked :: "jsstring \<Rightarrow> Mentionee \<Rightarrow> error + jsstring" where
  "removeSpanChecked t m =
     (case sliceChecked t 0 (Some (index m)) of
        Inl e \<Rightarrow> Inl e
      | Inr before \<Rightarrow>
          (case sliceChecked t (index m + length_m m) None of
             Inl e \<Rightarrow> Inl e
           | Inr rest \<Rightarrow> Inr (before @ rest)))"

text \<open>The loop \<open>for (const m of sorted)\<close>.\<close>

fun removeSpansChecked :: "jsstring \<Rightarrow> Mentionee list \<Rightarrow> error + jsstring" where
  "removeSpansChecked t [] = Inr t"
| "removeSpansChecked t (m # ms) =
     (case removeSpanChecked t m of
        Inl e \<Rightarrow> Inl e
      | Inr t' \<Rightarrow> removeSpansChecked t' ms)"

text \<open>
  \<open>[...mention.mentionees]\<close> raises a \<open>TypeError\<close> when the property is missing:
  \<open>undefined\<close> is not iterable.
\<close>

definition extractQuestionChecked :: "MessageObject \<Rightarrow> error + jsstring" where
  "extractQuestionChecked msg =
     (case mention_o msg of
        None \<Rightarrow> Inr (text_o msg)
      | Some mention_obj \<Rightarrow>
          (case mentionees mention_obj of
             None \<Rightarrow> Inl TypeError
           | Some ms \<Rightarrow>
               (case removeSpansChecked (text_o msg) (sortByIndexDesc ms) of
                  Inl e \<Rightarrow> Inl e
                | Inr t \<Rightarrow> Inr (trim t))))"


section \<open>Signature verification\<close>

definition arrayBufferToBase64 :: "host \<Rightarrow> 8 word list \<Rightarrow> jsstring" where
  "arrayBufferToBase64 h buffer = btoa h (map ucast buffer)"

definition verifyLineSignature :: "host \<Rightarrow> jsstring \<Rightarrow> jsstring option \<Rightarrow> jsstring \<Rightarrow> bool" where
  "verifyLineSignature h body signature channelSecret =
     (case signature of
        None \<Rightarrow> False
      | Some sig \<Rightarrow>
          if sig = [] then False
          else timingSafeEqual
                 (arrayBufferToBase64 h (hmacSha256 h (encode h channelSecret) (encode h body))) sig)"

section \<open>Eligibility\<close>

fun isTextMessage :: "Message \<Rightarrow> bool" where
  "isTextMessage (TextMessage _) = True"
| "isTextMessage OtherMessage = False"

definition isDirectChat :: "LineEvent \<Rightarrow> bool" where
  "isDirectChat event =
     (\<not> falsy (userId (source event)) \<and> falsy (groupId (source event)) \<and>
      falsy (roomId (source event)))"

definition isDirectChatEnabled :: "host \<Rightarrow> Env \<Rightarrow> bool" where
  "isDirectChatEnabled h env =
     (case ENABLE_DIRECT_CHAT_REPLY env of
        None \<Rightarrow> False
      | Some flag \<Rightarrow>
          if flag = [] then False
          else let normalized = toLowerCase h (trim flag)
               in normalized = js ''true'' \<or> normalized = js ''1'' \<or>
                  normalized = js ''yes'' \<or> normalized = js ''on'')"

definition isBotMentioned :: "LineTextMessage \<Rightarrow> jsstring \<Rightarrow> bool" where
  "isBotMentioned msg botUserId =
     (let mentionees = (case mention msg of None \<Rightarrow> [] | Some ms \<Rightarrow> ms)
      in list_ex (\<lambda>m. userId_m m = Some botUserId) mentionees)"


section \<open>The answer backend\<close>

text \<open>
  Reading a parsed JSON value. \<open>isObject v\<close> is
  \<open>v && typeof v === "object"\<close> (objects and arrays); \<open>getProp v k\<close> is \<open>v.k\<close> for
  the property names that the worker reads, none of which an array, a string or a
  prototype defines (\<open>None\<close> is \<open>undefined\<close>; the list of a \<open>JObject\<close> holds the
  object's own properties, each key once); \<open>elem0 v\<close> is \<open>v[0]\<close>; \<open>optProp\<close> and
  \<open>optElem0\<close> are the optional chains \<open>v?.k\<close> and \<open>v?.[0]\<close>.
\<close>

fun isObject :: "json \<Rightarrow> bool" where
  "isObject (JArray _) = True"
| "isObject (JObject _) = True"
| "isObject _ = False"

fun getProp :: "json \<Rightarrow> jsstring \<Rightarrow> json option" where
  "getProp (JObject kvs) k = map_of kvs k"
| "getProp _ k = None"

fun elem0 :: "json \<Rightarrow> json option" where
  "elem0 (JArray xs) = (case xs of [] \<Rightarrow> None | x # _ \<Rightarrow> Some x)"
| "elem0 (JString s) = (case s of [] \<Rightarrow> None | c # _ \<Rightarrow> Some (JString [c]))"
| "elem0 (JObject kvs) = map_of kvs (js ''0'')"
| "elem0 _ = None"

fun optProp :: "json option \<Rightarrow> jsstring \<Rightarrow> json option" where
  "optProp None k = None"
| "optProp (Some JNull) k = None"
| "optProp (Some v) k = getProp v k"

fun optElem0 :: "json option \<Rightarrow> json option" where
  "optElem0 None = None"
| "optElem0 (Some JNull) = None"
| "optElem0 (Some v) = elem0 v"

text \<open>\<open>typeof v === "string" && v.trim()\<close>, returning \<open>v.trim()\<close>.\<close>

fun trimmedString :: "json option \<Rightarrow> jsstring option" where
  "trimmedString (Some (JString s)) = (if trim s = [] then None else Some (trim s))"
| "trimmedString _ = None"

text \<open>The inner loop of \<open>extractOpenAIText\<close>, over the \<open>content\<close> of one output item.\<close>

fun firstContentText :: "json list \<Rightarrow> jsstring option" where
  "firstContentText [] = None"
| "firstContentText (c # cs) =
     (case (case c of JObject kvs \<Rightarrow> trimmedString (map_of kvs (js ''text'')) | _ \<Rightarrow> None) of
        Some t \<Rightarrow> Some t
      | None \<Rightarrow> firstContentText cs)"

text \<open>The outer loop, over \<open>output\<close>.\<close>

fun firstOutputText :: "json list \<Rightarrow> jsstring option" where
  "firstOutputText [] = None"
| "firstOutputText (item # items) =
     (case (if isObject item then getProp item (js ''content'') else None) of
        Some (JArray content) \<Rightarrow>
          (case firstContentText content of
             Some t \<Rightarrow> Some t
           | None \<Rightarrow> firstOutputText items)
      | _ \<Rightarrow> firstOutputText items)"

definition extractOpenAIText :: "json \<Rightarrow> jsstring option" where
  "extractOpenAIText data =
     (if \<not> isObject data then None
      else case trimmedString (getProp data (js ''output_text'')) of
        Some t \<Rightarrow> Some t
      | None \<Rightarrow>
          (case (case getProp data (js ''output'') of
                   Some (JArray output) \<Rightarrow> firstOutputText output
                 | _ \<Rightarrow> None) of
             Some t \<Rightarrow> Some t
           | None \<Rightarrow>
               trimmedString
                 (optProp (optProp (optElem0 (getProp data (js ''choices''))) (js ''message''))
                    (js ''content''))))"

text \<open>
  \<open>queryOpenAI\<close> of \<open>index.ts\<close>: the result, and the effects in the order they
  happen.
\<close>

definition queryOpenAI :: "host \<Rightarrow> jsstring \<Rightarrow> (error + jsstring) \<times> effect list" where
  "queryOpenAI h question =
     (case openai h question of
        Rejected \<Rightarrow> (Inl NetworkError, [FetchOpenAI question])
      | Responded response \<Rightarrow>
          if \<not> ok response
          then (Inl (OpenAIFailed (status response)),
                [FetchOpenAI question, LogOpenAIError (status response)])
          else (case json_body response of
                  None \<Rightarrow> (Inl SyntaxError, [FetchOpenAI question])
                | Some data \<Rightarrow>
                    if falsy (extractOpenAIText data)
                    then (Inl OpenAIEmpty, [FetchOpenAI question])
                    else (Inr (slice_js (the (extractOpenAIText data)) 0 (Some 1900)),
                          [FetchOpenAI question])))"

text \<open>
  \<open>queryOpenAI\<close> of the older worker reads
  \<open>data.choices?.[0]?.message?.content?.trim()\<close>: \<open>data.choices\<close> raises on
  \<open>null\<close>, and \<open>.trim()\<close> raises on a content that is neither nullish nor a string.
\<close>

definition queryOpenAI0 :: "host \<Rightarrow> jsstring \<Rightarrow> (error + jsstring) \<times> effect list" where
  "queryOpenAI0 h question =
     (case openai h question of
        Rejected \<Rightarrow> (Inl NetworkError, [FetchOpenAI question])
      | Responded response \<Rightarrow>
          if \<not> ok response
          then (Inl (OpenAIFailed (status response)),
                [FetchOpenAI question, LogOpenAIError (status response)])
          else (case json_body response of
                  None \<Rightarrow> (Inl SyntaxError, [FetchOpenAI question])
                | Some JNull \<Rightarrow> (Inl TypeError, [FetchOpenAI question])
                | Some data \<Rightarrow>
                    (case optProp (optProp (optElem0 (getProp data (js ''choices''))) (js ''message''))
                            (js ''content'') of
                       None \<Rightarrow> (Inl OpenAIEmpty, [FetchOpenAI question])
                     | Some JNull \<Rightarrow> (Inl OpenAIEmpty, [FetchOpenAI question])
                     | Some (JString s) \<Rightarrow>
                         if trim s = [] then (Inl OpenAIEmpty, [FetchOpenAI question])
                         else (Inr (slice_js (trim s) 0 (Some 1900)), [FetchOpenAI question])
                     | Some _ \<Rightarrow> (Inl TypeError, [FetchOpenAI question]))))"

section \<open>Reply delivery\<close>

definition replyToLine :: "host \<Rightarrow> LineEvent \<Rightarrow> jsstring \<Rightarrow> (error + unit) \<times> effect list" where
  "replyToLine h event msg =
     (if falsy (replyToken event)
      then (Inr (), [WarnNoReplyToken (webhookEventId event)])
      else (case line h (replyToken event) msg of
              Rejected \<Rightarrow> (Inl NetworkError, [FetchLine (replyToken event) msg])
            | Responded response \<Rightarrow>
                if \<not> ok response
                then (Inl (LineReplyFailed (status response)),
                      [FetchLine (replyToken event) msg, LogLineError (status response)])
                else (Inr (), [FetchLine (replyToken event) msg])))"

text \<open>\<open>replyToLine\<close> of the older worker takes the token and always sends.\<close>

definition replyToLine0 :: "host \<Rightarrow> jsstring option \<Rightarrow> jsstring \<Rightarrow> (error + unit) \<times> effect list" where
  "replyToLine0 h token msg =
     (case line h token msg of
        Rejected \<Rightarrow> (Inl NetworkError, [FetchLine token msg])
      | Responded response \<Rightarrow>
          if \<not> ok response
          then (Inl (LineReplyFailed (status response)),
                [FetchLine token msg, LogLineError (status response)])
          else (Inr (), [FetchLine token msg]))"


section \<open>The pipeline of one event\<close>

definition handleEvent :: "host \<Rightarrow> Env \<Rightarrow> LineEvent \<Rightarrow> (error + unit) \<times> effect list" where
  "handleEvent h env event =
     (if type_e event \<noteq> js ''message'' then (Inr (), [])
      else case message event of
        OtherMessage \<Rightarrow> (Inr (), [])
      | TextMessage msg \<Rightarrow>
          (let allowDirectChat = (isDirectChat event \<and> isDirectChatEnabled h env)
           in if \<not> allowDirectChat \<and> \<not> isBotMentioned msg (LINE_BOT_USER_ID env)
              then (Inr (), [])
              else (let question = trim (extractQuestion msg)
                    in if question = [] then (Inr (), [])
                       else (case queryOpenAI h question of
                               (Inl e, effs) \<Rightarrow> (Inl e, effs)
                             | (Inr answer, effs) \<Rightarrow>
                                 (case replyToLine h event answer of
                                    (r, effs') \<Rightarrow> (r, effs @ effs'))))))"

text \<open>The older worker: a reply needs a mention of the bot.\<close>

definition handleEvent0 :: "host \<Rightarrow> Env0 \<Rightarrow> LineEvent \<Rightarrow> (error + unit) \<times> effect list" where
  "handleEvent0 h env event =
     (if type_e event \<noteq> js ''message'' then (Inr (), [])
      else case message event of
        OtherMessage \<Rightarrow> (Inr (), [])
      | TextMessage msg \<Rightarrow>
          if \<not> isBotMentioned msg (LINE_BOT_USER_ID env) then (Inr (), [])
          else (let question = trim (extractQuestion msg)
                in if question = [] then (Inr (), [])
                   else (case queryOpenAI0 h question of
                           (Inl e, effs) \<Rightarrow> (Inl e, effs)
                         | (Inr answer, effs) \<Rightarrow>
                             (case replyToLine0 h (replyToken event) answer of
                                (r, effs') \<Rightarrow> (r, effs @ effs')))))"

section \<open>The request handler\<close>

record Request =
  method_r :: jsstring
  signature :: "jsstring option"
  bodyText :: jsstring

text \<open>
  One task of \<open>index.ts\<close>: \<open>handleEvent(event, env).catch(...)\<close>, which logs the
  error of a rejected pipeline and settles.
\<close>

definition task :: "host \<Rightarrow> Env \<Rightarrow> LineEvent \<Rightarrow> effect list" where
  "task h env event =
     (case handleEvent h env event of
        (Inl e, effs) \<Rightarrow> effs @ [LogEventError e]
      | (Inr _, effs) \<Rightarrow> effs)"

text \<open>
  What handling a request amounts to: the response, or the exception that leaves the
  handler; the effects of the handler itself before any pipeline starts; for every
  event the effects of its pipeline, in the order in which that pipeline produces
  them; and the effects of the handler after all pipelines have settled. The
  pipelines are started one after another inside \<open>events.map\<close> and then run
  concurrently, so what is observed of them is an interleaving of their effect lists.
\<close>

record Handled =
  outcome :: "error + Response"
  handlerEffects :: "effect list"
  pipelines :: "effect list list"
  joinEffects :: "effect list"

text \<open>
  \<open>interleaving xss t\<close>: the trace \<open>t\<close> merges the lists \<open>xss\<close>, keeping the order
  inside each list.
\<close>

fun interleaving :: "'a list list \<Rightarrow> 'a list \<Rightarrow> bool" where
  "interleaving xss [] = list_all (\<lambda>xs. xs = []) xss"
| "interleaving xss (x # t) =
     list_ex (\<lambda>i. case xss ! i of
                     [] \<Rightarrow> False
                   | y # ys \<Rightarrow> y = x \<and> interleaving (xss[i := ys]) t)
       [0..<length xss]"

text \<open>
  \<open>fetch\<close> of \<open>index.ts\<close>: the tasks are handed to \<open>ctx.waitUntil\<close> and the
  response is returned.
\<close>

definition fetch :: "host \<Rightarrow> Env \<Rightarrow> Request \<Rightarrow> Handled" where
  "fetch h env request =
     (if method_r request \<noteq> js ''POST''
      then \<lparr>outcome = Inr (Response (js ''Method Not Allowed'') 405), handlerEffects = [],
            pipelines = [], joinEffects = []\<rparr>
      else if \<not> verifyLineSignature h (bodyText request) (signature request)
                  (LINE_CHANNEL_SECRET env)
      then \<lparr>outcome = Inr (Response (js ''Invalid signature'') 401), handlerEffects = [],
            pipelines = [], joinEffects = []\<rparr>
      else case JSON_parse h (bodyText request) of
        JsonSyntaxError \<Rightarrow>
          \<lparr>outcome = Inr (Response (js ''Bad Request'') 400), handlerEffects = [LogParseFailed],
           pipelines = [], joinEffects = []\<rparr>
      | JsonNoEvents \<Rightarrow>
          \<lparr>outcome = Inl TypeError, handlerEffects = [], pipelines = [], joinEffects = []\<rparr>
      | JsonBatch events \<Rightarrow>
          \<lparr>outcome = Inr (Response (js ''OK'') 200), handlerEffects = [],
           pipelines = map (task h env) events, joinEffects = []\<rparr>)"

text \<open>
  \<open>fetch\<close> of the older worker awaits all pipelines, each with its error caught into
  a result, and then logs the error of the first result (in the order of the events)
  that has one.
\<close>

definition firstError :: "((error + unit) \<times> effect list) list \<Rightarrow> effect list" where
  "firstError results =
     (case List.find (\<lambda>r. isl (fst r)) results of
        Some (Inl e, _) \<Rightarrow> [LogEventError e]
      | _ \<Rightarrow> [])"

definition fetch0 :: "host \<Rightarrow> Env0 \<Rightarrow> Request \<Rightarrow> Handled" where
  "fetch0 h env request =
     (if method_r request \<noteq> js ''POST''
      then \<lparr>outcome = Inr (Response (js ''Method Not Allowed'') 405), handlerEffects = [],
            pipelines = [], joinEffects = []\<rparr>
      else if \<not> verifyLineSignature h (bodyText request) (signature request)
                  (LINE_CHANNEL_SECRET env)
      then \<lparr>outcome = Inr (Response (js ''Invalid signature'') 401), handlerEffects = [],
            pipelines = [], joinEffects = []\<rparr>
      else case JSON_parse h (bodyText request) of
        JsonSyntaxError \<Rightarrow>
          \<lparr>outcome = Inr (Response (js ''Bad Request'') 400), handlerEffects = [LogParseFailed],
           pipelines = [], joinEffects = []\<rparr>
      | JsonNoEvents \<Rightarrow>
          \<lparr>outcome = Inl TypeError, handlerEffects = [], pipelines = [], joinEffects = []\<rparr>
      | JsonBatch events \<Rightarrow>
          (let results = map (handleEvent0 h env) events
           in \<lparr>outcome = Inr (Response (js ''OK'') 200), handlerEffects = [],
                pipelines = map snd results, joinEffects = firstError results\<rparr>))"

section \<open>Notions used to state the properties\<close>

text \<open>
  The span of a mention is the half-open range \<open>[index, index + length)\<close> of
  positions of the raw text. \<open>covered m p\<close>: position \<open>p\<close> lies in the span of
  \<open>m\<close>. \<open>inBounds t m\<close>: the span lies inside the text \<open>t\<close>. \<open>overlap a b\<close>: the
  two spans share a position.
\<close>

definition covered :: "Mentionee \<Rightarrow> nat \<Rightarrow> bool" where
  "covered m p \<longleftrightarrow> index m \<le> int p \<and> int p < index m + length_m m"

definition inBounds :: "jsstring \<Rightarrow> Mentionee \<Rightarrow> bool" where
  "inBounds t m \<longleftrightarrow> 0 \<le> index m \<and> 0 \<le> length_m m \<and> index m + length_m m \<le> int (length t)"

definition overlap :: "Mentionee \<Rightarrow> Mentionee \<Rightarrow> bool" where
  "overlap a b \<longleftrightarrow> max (index a) (index b) < min (index a + length_m a) (index b + length_m b)"

text \<open>No two entries of the list overlap.\<close>

fun nonOverlapping :: "Mentionee list \<Rightarrow> bool" where
  "nonOverlapping [] = True"
| "nonOverlapping (m # ms) = (list_all (\<lambda>m'. \<not> overlap m m') ms \<and> nonOverlapping ms)"

definition validSpans :: "jsstring \<Rightarrow> Mentionee list \<Rightarrow> bool" where
  "validSpans t ms \<longleftrightarrow> list_all (inBounds t) ms \<and> nonOverlapping ms"

text \<open>The text outside every span: the code units at the positions that no mention covers.\<close>

definition remaining :: "jsstring \<Rightarrow> Mentionee list \<Rightarrow> jsstring" where
  "remaining t ms =
     map fst (filter (\<lambda>(c, p). list_all (\<lambda>m. \<not> covered m p) ms) (zip t [0..<length t]))"

definition kept :: "Mentionee set \<Rightarrow> nat set" where
  "kept S = {p. \<forall>m\<in>S. \<not> covered m p}"

text \<open>
  The overlap test on a list sorted by descending index: the end of some span exceeds
  the start of the span processed just before it.
\<close>

fun overlapDetected :: "Mentionee list \<Rightarrow> bool" where
  "overlapDetected (prev # next # ms) =
     (index next + length_m next > index prev \<or> overlapDetected (next # ms))"
| "overlapDetected _ = False"

section \<open>A host and events for the examples\<close>

text \<open>
  \<open>toLowerCaseAscii\<close> is \<open>toLowerCase\<close> on ASCII text. The example host has toy
  functions for the cryptographic built-ins (the signature of a body is the secret
  followed by the body), and is given what \<open>JSON.parse\<close> returns for the body at
  hand and what the two collaborators answer.
\<close>

definition toLowerCaseAscii :: "jsstring \<Rightarrow> jsstring" where
  "toLowerCaseAscii s = map (\<lambda>c. if 65 \<le> unat c \<and> unat c \<le> 90 then c + 32 else c) s"

definition demoHost ::
  "parsed \<Rightarrow> (jsstring \<Rightarrow> fetched) \<Rightarrow> (jsstring option \<Rightarrow> jsstring \<Rightarrow> fetched) \<Rightarrow> host" where
  "demoHost p ai ln =
     \<lparr>encode = map ucast, hmacSha256 = (\<lambda>key data. key @ data), btoa = id,
      JSON_parse = (\<lambda>body. p), toLowerCase = toLowerCaseAscii, openai = ai, line = ln\<rparr>"

definition demoEnv0 :: Env0 where
  "demoEnv0 = \<lparr>LINE_CHANNEL_SECRET = js ''k'', LINE_BOT_USER_ID = js ''Ubot''\<rparr>"

definition demoEnv :: "jsstring option \<Rightarrow> Env" where
  "demoEnv flag =
     \<lparr>LINE_CHANNEL_SECRET = js ''k'', LINE_BOT_USER_ID = js ''Ubot'',
      ENABLE_DIRECT_CHAT_REPLY = flag\<rparr>"

text \<open>An answer backend that fails on the question \<open>fail\<close> and answers \<open>sure\<close> otherwise.\<close>

definition answers :: "jsstring \<Rightarrow> fetched" where
  "answers question =
     (if question = js ''fail'' then Responded \<lparr>status = 500, json_body = None\<rparr>
      else Responded \<lparr>status = 200,
             json_body = Some (JObject [(js ''output_text'', JString (js ''sure'')),
               (js ''choices'', JArray [JObject [(js ''message'',
                  JObject [(js ''content'', JString (js ''sure''))])]])])\<rparr>)"

text \<open>A chat platform that rejects a reply without a token with status 400.\<close>

definition delivers :: "jsstring option \<Rightarrow> jsstring \<Rightarrow> fetched" where
  "delivers token msg =
     Responded \<lparr>status = (if falsy token then 400 else 200), json_body = None\<rparr>"

text \<open>A message in a group that mentions the bot at its start and asks \<open>q\<close>.\<close>

definition groupEvent :: "jsstring \<Rightarrow> jsstring option \<Rightarrow> LineEvent" where
  "groupEvent q token =
     \<lparr>type_e = js ''message'', replyToken = token,
      source = \<lparr>userId = Some (js ''U1''), groupId = Some (js ''G1''), roomId = None\<rparr>,
      webhookEventId = js ''E1'',
      message = TextMessage \<lparr>text_m = js ''@bot '' @ q,
        mention = Some [\<lparr>index = 0, length_m = 4, userId_m = Some (js ''Ubot'')\<rparr>]\<rparr>\<rparr>"

text \<open>A one-to-one message without a mention.\<close>

definition directEvent :: "jsstring \<Rightarrow> LineEvent" where
  "directEvent q =
     \<lparr>type_e = js ''message'', replyToken = Some (js ''T''),
      source = \<lparr>userId = Some (js ''U1''), groupId = None, roomId = None\<rparr>,
      webhookEventId = js ''E2'',
      message = TextMessage \<lparr>text_m = q, mention = None\<rparr>\<rparr>"

text \<open>A request with the body \<open>body\<close>, signed for the example host and secret.\<close>

definition demoRequest :: "jsstring \<Rightarrow> Request" where
  "demoRequest body =
     \<lparr>method_r = js ''POST'', signature = Some (js ''k'' @ body), bodyText = body\<rparr>"


text \<open>An answer backend whose answer has 2000 code units.\<close>

definition verbose :: "jsstring \<Rightarrow> fetched" where
  "verbose question =
     Responded \<lparr>status = 200,
       json_body = Some (JObject [(js ''output_text'', JString (replicate 2000 97)),
         (js ''choices'', JArray [JObject [(js ''message'',
            JObject [(js ''content'', JString (replicate 2000 97))])]])])\<rparr>"

text \<open>
  A message with two mentions that both cover the first five code units of the text.
\<close>

definition twiceMentioned :: LineTextMessage where
  "twiceMentioned =
     \<lparr>text_m = js ''@Bot what time is it'',
      mention = Some [\<lparr>index = 0, length_m = 5, userId_m = Some (js ''Ubot'')\<rparr>,
                      \<lparr>index = 0, length_m = 5, userId_m = Some (js ''Ubot'')\<rparr>]\<rparr>"

text \<open>
  A batch of three messages; the answer backend \<open>answers\<close> fails on the second.
\<close>

definition threeEvents :: "LineEvent list" where
  "threeEvents =
     [groupEvent (js ''one'') (Some (js ''T1'')), groupEvent (js ''fail'') (Some (js ''T2'')),
      groupEvent (js ''three'') (Some (js ''T3''))]"

text \<open>
  A trace of that batch: the three requests to the answer backend go out first, the
  second pipeline fails, and the reply of the third event is sent before the reply of
  the first.
\<close>

definition threeTrace :: "effect list" where
  "threeTrace =
     [FetchOpenAI (js ''one''), FetchOpenAI (js ''fail''), FetchOpenAI (js ''three''),
      LogOpenAIError 500, LogEventError (OpenAIFailed 500),
      FetchLine (Some (js ''T3'')) (js ''sure''), FetchLine (Some (js ''T1'')) (js ''sure'')]"
section \<open>The signature comparison is string equality\<close>

lemma foldl_or_zero:
  "foldl (\<lambda>r i. r OR f i) r0 is = (0::32 word) \<longleftrightarrow> r0 = 0 \<and> (\<forall>i\<in>set is. f i = 0)"
  by (induction "is" arbitrary: r0) (auto simp: or_eq_0_iff)

lemma xor_zero_iff: "(x::32 word) XOR y = 0 \<longleftrightarrow> x = y"
proof
  assume "x XOR y = 0"
  then have "(x XOR y) XOR y = 0 XOR y" by simp
  then show "x = y" by (simp add: xor.assoc)
qed simp

lemma ucast_code_unit_inj: "(ucast (x::16 word) :: 32 word) = ucast y \<longleftrightarrow> x = y"
proof
  assume h: "(ucast x :: 32 word) = ucast y"
  have up: "is_up (ucast :: 16 word \<Rightarrow> 32 word)" by (simp add: is_up)
  have "uint (ucast x :: 32 word) = uint x" "uint (ucast y :: 32 word) = uint y"
    using up by (rule uint_up_ucast)+
  with h show "x = y" by (simp add: word_uint_eq_iff)
qed simp

text \<open>
  C5. \<open>timingSafeEqual a b\<close> is true exactly when \<open>a\<close> equals \<open>b\<close>: true for
  equal strings, false for differing strings of equal length, false for strings of
  differing lengths.
\<close>

theorem timingSafeEqual_iff: "timingSafeEqual a b \<longleftrightarrow> a = b"
proof (cases "length a = length b")
  case False
  then show ?thesis by (auto simp: timingSafeEqual_def)
next
  case True
  then have "timingSafeEqual a b \<longleftrightarrow> (\<forall>i<length a. a ! i = b ! i)"
    by (auto simp add: timingSafeEqual_def foldl_or_zero charCodeAt_def xor_zero_iff
        ucast_code_unit_inj)
  with True show ?thesis by (auto simp: list_eq_iff_nth_eq)
qed

theorem timingSafeEqual_iff_witness:
  "timingSafeEqual (js ''abc='') (js ''abc='') \<and> \<not> timingSafeEqual (js ''abc='') (js ''abd='') \<and>
   \<not> timingSafeEqual (js ''abc='') (js ''abc'')"
  using timingSafeEqual_iff [of "js ''abc=''" "js ''abc=''"]
    timingSafeEqual_iff [of "js ''abc=''" "js ''abd=''"]
    timingSafeEqual_iff [of "js ''abc=''" "js ''abc''"]
  by (simp add: js_def)

section \<open>Question extraction on non-overlapping spans\<close>

lemma remaining_nths: "remaining t ms = nths t (kept (set ms))"
  by (simp add: remaining_def nths_def kept_def list_all_iff case_prod_unfold)

lemma overlap_sym: "overlap a b = overlap b a"
  by (auto simp: overlap_def)

lemma nonOverlapping_append:
  "nonOverlapping (xs @ ys) \<longleftrightarrow>
     nonOverlapping xs \<and> nonOverlapping ys \<and> (\<forall>x\<in>set xs. \<forall>y\<in>set ys. \<not> overlap x y)"
  by (induction xs) (auto simp: list_all_iff)

lemma nonOverlapping_insert:
  "nonOverlapping (xs @ x # ys) \<longleftrightarrow>
     nonOverlapping (xs @ ys) \<and> (\<forall>y\<in>set (xs @ ys). \<not> overlap x y)"
  using overlap_sym by (auto simp: nonOverlapping_append list_all_iff)

text \<open>Whether a list of spans is free of overlaps does not depend on its order.\<close>

lemma nonOverlapping_mset:
  "mset ms' = mset ms \<Longrightarrow> nonOverlapping ms \<Longrightarrow> nonOverlapping ms'"
proof (induction ms arbitrary: ms')
  case Nil
  then show ?case by simp
next
  case (Cons x xs)
  then have "x \<in> set ms'" by (metis list.set_intros(1) set_mset_mset)
  then obtain as bs where ms': "ms' = as @ x # bs" by (auto dest: split_list)
  with Cons.prems have m: "mset (as @ bs) = mset xs" by simp
  then have s: "set (as @ bs) = set xs" by (rule mset_eq_setD)
  from Cons.prems have "nonOverlapping xs" "\<forall>y\<in>set xs. \<not> overlap x y"
    by (simp_all add: list_all_iff)
  with Cons.IH [OF m] s show ?case
    unfolding ms' nonOverlapping_insert by simp
qed

lemma validSpans_mset: "mset ms' = mset ms \<Longrightarrow> validSpans t ms \<Longrightarrow> validSpans t ms'"
  using nonOverlapping_mset [of ms' ms] mset_eq_setD [of ms' ms]
  by (simp add: validSpans_def list_all_iff)

text \<open>With offsets that are not negative, the two slices are a \<open>take\<close> and a \<open>drop\<close>.\<close>

lemma removeSpan_take_drop:
  "0 \<le> index m \<Longrightarrow> 0 \<le> length_m m \<Longrightarrow>
   removeSpan s m = take (nat (index m)) s @ drop (nat (index m + length_m m)) s"
  by (auto simp: removeSpan_def slice_js_def sliceBound_def Let_def min_def)

lemma nths_none: "\<forall>i<length xs. i \<notin> I \<Longrightarrow> nths xs I = []"
  by (auto simp: nths_def filter_empty_conv in_set_zip)

text \<open>
  One turn of the loop. The spans in \<open>P\<close> are removed already; they start at or after
  the start of \<open>m\<close> and do not overlap it, so the text up to the end of \<open>m\<close> is still
  in place and the offsets of \<open>m\<close> still point at its span.
\<close>

lemma removeSpan_step:
  assumes m: "inBounds t m"
    and P: "\<forall>a\<in>P. \<not> overlap a m \<and> index m \<le> index a"
  shows "removeSpan (nths t (kept P)) m = nths t (kept (insert m P))"
proof (cases "length_m m = 0")
  case True
  with m have "removeSpan (nths t (kept P)) m = nths t (kept P)"
    by (simp add: removeSpan_take_drop inBounds_def)
  moreover from True have "kept (insert m P) = kept P"
    by (auto simp: kept_def covered_def)
  ultimately show ?thesis by simp
next
  case False
  define i where "i = nat (index m)"
  define e where "e = nat (index m + length_m m)"
  from m False have ie: "i < e" "e \<le> length t"
    and im: "index m = int i" "index m + length_m m = int e"
    by (auto simp: i_def e_def inBounds_def)
  have cov: "covered m p \<longleftrightarrow> i \<le> p \<and> p < e" for p
    using im unfolding covered_def by auto
  have low: "p \<in> kept P" if "p < e" for p
  proof -
    have "\<not> covered a p" if a: "a \<in> P" for a
    proof
      assume c: "covered a p"
      from P a have "\<not> overlap a m" "index m \<le> index a" by auto
      with c \<open>p < e\<close> im show False by (auto simp: overlap_def covered_def)
    qed
    then show ?thesis by (simp add: kept_def)
  qed
  define X where "X = nths (drop e t) {j. j + e \<in> kept P}"
  have len: "length (take e t) = e" using ie by simp
  have "nths (take e t @ drop e t) (kept P) = nths (take e t) (kept P) @ X"
    unfolding X_def by (simp only: nths_append len)
  moreover have "nths (take e t) (kept P) = take e t"
    by (rule nths_all) (simp add: low)
  ultimately have cur: "nths t (kept P) = take e t @ X" by simp
  have lhs: "removeSpan (nths t (kept P)) m = take i t @ X"
    using m ie unfolding cur
    by (simp add: removeSpan_take_drop inBounds_def i_def [symmetric] e_def [symmetric] min_def)
  have K: "kept (insert m P) = {p. p \<in> kept P \<and> \<not> (i \<le> p \<and> p < e)}"
    by (auto simp: kept_def cov)
  have hi: "{j. j + e \<in> kept (insert m P)} = {j. j + e \<in> kept P}"
    by (auto simp: K)
  have "nths (take e t @ drop e t) (kept (insert m P)) = nths (take e t) (kept (insert m P)) @ X"
    unfolding X_def by (simp only: nths_append len hi)
  then have r1: "nths t (kept (insert m P)) = nths (take e t) (kept (insert m P)) @ X" by simp
  have len2: "length (take i t) = i" using ie by simp
  have te: "take e t = take i t @ drop i (take e t)"
    using ie by (metis append_take_drop_id take_take min.absorb1 less_imp_le)
  have "nths (take i t @ drop i (take e t)) (kept (insert m P)) =
        nths (take i t) (kept (insert m P)) @
        nths (drop i (take e t)) {j. j + i \<in> kept (insert m P)}"
    by (simp only: nths_append len2)
  moreover have "nths (take i t) (kept (insert m P)) = take i t"
    by (rule nths_all) (use ie in \<open>simp add: K low\<close>)
  moreover have "nths (drop i (take e t)) {j. j + i \<in> kept (insert m P)} = []"
    by (rule nths_none) (use ie in \<open>auto simp: K\<close>)
  ultimately have "nths (take e t) (kept (insert m P)) = take i t"
    using te by simp
  with r1 lhs show ?thesis by simp
qed

text \<open>The loop, by induction on the spans still to process.\<close>

lemma foldl_removeSpan:
  assumes "sorted (map (\<lambda>m. - index m) R)"
    and "nonOverlapping R"
    and "\<forall>m\<in>set R. inBounds t m"
    and "\<forall>a\<in>P. \<forall>m\<in>set R. \<not> overlap a m \<and> index m \<le> index a"
  shows "foldl removeSpan (nths t (kept P)) R = nths t (kept (P \<union> set R))"
  using assms
proof (induction R arbitrary: P)
  case Nil
  then show ?case by simp
next
  case (Cons m R)
  have step: "removeSpan (nths t (kept P)) m = nths t (kept (insert m P))"
    by (rule removeSpan_step) (use Cons.prems in auto)
  have "foldl removeSpan (nths t (kept (insert m P))) R = nths t (kept (insert m P \<union> set R))"
  proof (rule Cons.IH)
    show "sorted (map (\<lambda>m. - index m) R)" using Cons.prems(1) by simp
    show "nonOverlapping R" using Cons.prems(2) by simp
    show "\<forall>m\<in>set R. inBounds t m" using Cons.prems(3) by simp
    show "\<forall>a\<in>insert m P. \<forall>m\<in>set R. \<not> overlap a m \<and> index m \<le> index a"
      using Cons.prems by (auto simp: list_all_iff)
  qed
  with step show ?case by simp
qed

lemma extractQuestion_remaining:
  assumes "validSpans t ms"
  shows "extractQuestion \<lparr>text_m = t, mention = Some ms\<rparr> = trim (remaining t ms)"
proof -
  let ?R = "sortByIndexDesc ms"
  have ms: "mset ?R = mset ms" and st: "set ?R = set ms"
    by (simp_all add: sortByIndexDesc_def)
  have "foldl removeSpan (nths t (kept {})) ?R = nths t (kept ({} \<union> set ?R))"
  proof (rule foldl_removeSpan)
    show "sorted (map (\<lambda>m. - index m) ?R)" by (simp add: sortByIndexDesc_def)
    show "nonOverlapping ?R"
      using assms ms by (auto simp: validSpans_def intro: nonOverlapping_mset)
    show "\<forall>m\<in>set ?R. inBounds t m" using assms by (simp add: validSpans_def st list_all_iff)
  qed simp
  moreover have "nths t (kept {}) = t" by (simp add: kept_def nths_all)
  ultimately show ?thesis by (simp add: extractQuestion_def remaining_nths st)
qed

text \<open>
  C4. For a text message whose mention spans are in bounds and pairwise
  non-overlapping, extraction (which sorts the spans by descending index and slices
  each one out) returns the text outside every span, trimmed; the result is the same
  for every order of the mention entries.
\<close>

theorem extractQuestion_removes_spans:
  assumes "validSpans t ms"
  shows "extractQuestion \<lparr>text_m = t, mention = Some ms\<rparr> = trim (remaining t ms) \<and>
         (\<forall>ms'. mset ms' = mset ms \<longrightarrow>
            extractQuestion \<lparr>text_m = t, mention = Some ms'\<rparr> =
            extractQuestion \<lparr>text_m = t, mention = Some ms\<rparr>)"
proof (intro conjI allI impI)
  show "extractQuestion \<lparr>text_m = t, mention = Some ms\<rparr> = trim (remaining t ms)"
    using assms by (rule extractQuestion_remaining)
next
  fix ms' assume p: "mset ms' = mset ms"
  then have "validSpans t ms'" using assms by (rule validSpans_mset)
  then have "extractQuestion \<lparr>text_m = t, mention = Some ms'\<rparr> = trim (remaining t ms')"
    by (rule extractQuestion_remaining)
  moreover have "remaining t ms' = remaining t ms"
    using mset_eq_setD [OF p] by (simp add: remaining_nths)
  ultimately show "extractQuestion \<lparr>text_m = t, mention = Some ms'\<rparr> =
      extractQuestion \<lparr>text_m = t, mention = Some ms\<rparr>"
    using extractQuestion_remaining [OF assms] by simp
qed

theorem extractQuestion_removes_spans_witness:
  "validSpans (js ''@A @B question'')
     [\<lparr>index = 0, length_m = 2, userId_m = None\<rparr>, \<lparr>index = 3, length_m = 2, userId_m = None\<rparr>] \<and>
   extractQuestion \<lparr>text_m = js ''@A @B question'', mention =
     Some [\<lparr>index = 0, length_m = 2, userId_m = None\<rparr>, \<lparr>index = 3, length_m = 2, userId_m = None\<rparr>]\<rparr>
     = js ''question'' \<and>
   extractQuestion \<lparr>text_m = js ''@A @B question'', mention =
     Some [\<lparr>index = 3, length_m = 2, userId_m = None\<rparr>, \<lparr>index = 0, length_m = 2, userId_m = None\<rparr>]\<rparr>
     = js ''question'' \<and>
   extractQuestion \<lparr>text_m = js ''@Bot hello'', mention =
     Some [\<lparr>index = 0, length_m = 4, userId_m = None\<rparr>]\<rparr> = js ''hello''"
proof -
  let ?a = "\<lparr>index = 0, length_m = 2, userId_m = None\<rparr>"
  let ?b = "\<lparr>index = 3, length_m = 2, userId_m = None\<rparr>"
  let ?c = "\<lparr>index = 0, length_m = 4, userId_m = None\<rparr>"
  have v: "validSpans (js ''@A @B question'') [?a, ?b]"
    by (simp add: validSpans_def inBounds_def overlap_def js_def)
  have w: "validSpans (js ''@Bot hello'') [?c]"
    by (simp add: validSpans_def inBounds_def js_def)
  have r: "trim (remaining (js ''@A @B question'') [?a, ?b]) = js ''question''"
    by (simp add: remaining_def covered_def trim_def isWhiteSpace_def js_def upt_rec)
  have s: "trim (remaining (js ''@Bot hello'') [?c]) = js ''hello''"
    by (simp add: remaining_def covered_def trim_def isWhiteSpace_def js_def upt_rec)
  have p: "mset [?b, ?a] = mset [?a, ?b]" by simp
  note A = extractQuestion_removes_spans [OF v]
  note B = extractQuestion_removes_spans [OF w]
  have 1: "extractQuestion \<lparr>text_m = js ''@A @B question'', mention = Some [?a, ?b]\<rparr> =
      js ''question''"
    using conjunct1 [OF A] r by (rule trans)
  have "extractQuestion \<lparr>text_m = js ''@A @B question'', mention = Some [?b, ?a]\<rparr> =
      extractQuestion \<lparr>text_m = js ''@A @B question'', mention = Some [?a, ?b]\<rparr>"
    by (rule conjunct2 [OF A, THEN spec, THEN mp, OF p])
  then have 2: "extractQuestion \<lparr>text_m = js ''@A @B question'', mention = Some [?b, ?a]\<rparr> =
      js ''question''"
    using 1 by (rule trans)
  have 3: "extractQuestion \<lparr>text_m = js ''@Bot hello'', mention = Some [?c]\<rparr> = js ''hello''"
    using conjunct1 [OF B] s by (rule trans)
  from v 1 2 3 show ?thesis by (intro conjI)
qed

section \<open>Question extraction never throws\<close>





text \<open>The failures are there: a range that is not clamped, a mention without a list.\<close>

lemma substring_out_of_range:
  "substring (js ''abc'') 2 9 = Inl OutOfRange"
  "substring (js ''abc'') (- 1) 2 = Inl OutOfRange"
  "substring (js ''abc'') 2 1 = Inl OutOfRange"
  by (simp_all add: substring_def js_def)

lemma extractQuestionChecked_no_list:
  "extractQuestionChecked \<lparr>text_o = t, mention_o = Some \<lparr>mentionees = None\<rparr>\<rparr> = Inl TypeError"
  by (simp add: extractQuestionChecked_def)



section \<open>Question extraction on overlapping spans\<close>

lemma subseq_removeSpan:
  assumes "0 \<le> index m" and "0 \<le> length_m m"
  shows "subseq (removeSpan s m) s"
proof -
  define i where "i = nat (index m)"
  define j where "j = nat (index m + length_m m)"
  have ij: "i \<le> j" using assms by (simp add: i_def j_def)
  have "drop j s = drop (j - i) (drop i s)" using ij by simp
  then have "suffix (drop j s) (drop i s)" by (metis suffix_drop)
  then have "subseq (drop j s) (drop i s)" by (rule suffix_imp_subseq)
  then have "subseq (take i s @ drop j s) (take i s @ drop i s)"
    by (simp only: subseq_append')
  then have "subseq (take i s @ drop j s) s"
    by (simp only: append_take_drop_id)
  then show ?thesis using assms by (simp add: removeSpan_take_drop i_def j_def)
qed

lemma subseq_foldl_removeSpan:
  "list_all (\<lambda>m. 0 \<le> index m \<and> 0 \<le> length_m m) ms \<Longrightarrow> subseq (foldl removeSpan s ms) s"
proof (induction ms arbitrary: s)
  case Nil
  then show ?case by simp
next
  case (Cons m ms)
  then have "subseq (foldl removeSpan (removeSpan s m) ms) (removeSpan s m)" by simp
  moreover have "subseq (removeSpan s m) s" using Cons.prems by (simp add: subseq_removeSpan)
  ultimately show ?case by (auto intro: subseq_order.order_trans)
qed

lemma prefix_trim_right: "prefix (rev (dropWhile P (rev s))) s"
proof -
  have "rev (takeWhile P (rev s) @ dropWhile P (rev s)) = s"
    by (simp only: takeWhile_dropWhile_id rev_rev_ident)
  then have "s = rev (dropWhile P (rev s)) @ rev (takeWhile P (rev s))"
    by (simp only: rev_append)
  then show ?thesis by (rule prefixI)
qed

lemma subseq_trim: "subseq (trim s) s"
proof -
  have "subseq (trim s) (dropWhile isWhiteSpace s)"
    unfolding trim_def by (rule prefix_imp_subseq) (rule prefix_trim_right)
  moreover have "subseq (dropWhile isWhiteSpace s) s"
    by (rule suffix_imp_subseq) (rule suffix_dropWhile)
  ultimately show ?thesis by (rule subseq_order.order_trans)
qed

text \<open>
  C1 (as amended). For a text message whose mention entries, with index and length
  not negative, contain two overlapping spans, extraction does not fail: it returns
  the trimmed result of slicing the spans out one after another in descending index
  order, which is a subsequence of the message text.
\<close>

theorem extractQuestion_overlap_returns:
  assumes "overlapDetected (sortByIndexDesc ms)"
    and "list_all (\<lambda>m. 0 \<le> index m \<and> 0 \<le> length_m m) ms"
  shows "extractQuestion \<lparr>text_m = t, mention = Some ms\<rparr> =
           trim (foldl removeSpan t (sortByIndexDesc ms)) \<and>
         subseq (extractQuestion \<lparr>text_m = t, mention = Some ms\<rparr>) t"
proof -
  have "list_all (\<lambda>m. 0 \<le> index m \<and> 0 \<le> length_m m) (sortByIndexDesc ms)"
    using assms(2) by (simp add: list_all_iff sortByIndexDesc_def)
  then have "subseq (foldl removeSpan t (sortByIndexDesc ms)) t"
    by (rule subseq_foldl_removeSpan)
  with subseq_trim [of "foldl removeSpan t (sortByIndexDesc ms)"]
  have "subseq (trim (foldl removeSpan t (sortByIndexDesc ms))) t"
    by (rule subseq_order.order_trans)
  then show ?thesis by (simp add: extractQuestion_def)
qed

lemma twiceMentioned_sorted:
  "sortByIndexDesc [\<lparr>index = 0, length_m = 5, userId_m = u\<rparr>,
                    \<lparr>index = 0, length_m = 5, userId_m = u\<rparr>] =
   [\<lparr>index = 0, length_m = 5, userId_m = u\<rparr>, \<lparr>index = 0, length_m = 5, userId_m = u\<rparr>]"
  by (simp add: sortByIndexDesc_def)

lemma twiceMentioned_question: "extractQuestion twiceMentioned = js ''time is it''"
  by (simp add: twiceMentioned_def extractQuestion_def twiceMentioned_sorted removeSpan_def
      slice_js_def sliceBound_def trim_def isWhiteSpace_def js_def)

theorem extractQuestion_overlap_returns_witness:
  "overlapDetected (sortByIndexDesc (the (mention twiceMentioned))) \<and>
   subseq (js ''time is it'') (js ''@Bot what time is it'')"
proof -
  let ?ms = "[\<lparr>index = 0, length_m = 5, userId_m = Some (js ''Ubot'')\<rparr>,
              \<lparr>index = 0, length_m = 5, userId_m = Some (js ''Ubot'')\<rparr>]"
  have o: "overlapDetected (sortByIndexDesc ?ms)"
    by (simp add: twiceMentioned_sorted)
  have n: "list_all (\<lambda>m. 0 \<le> index m \<and> 0 \<le> length_m m) ?ms" by simp
  have "subseq (extractQuestion \<lparr>text_m = js ''@Bot what time is it'', mention = Some ?ms\<rparr>)
          (js ''@Bot what time is it'')"
    by (rule conjunct2 [OF extractQuestion_overlap_returns [OF o n]])
  then have "subseq (js ''time is it'') (js ''@Bot what time is it'')"
    using twiceMentioned_question by (simp add: twiceMentioned_def)
  with o show ?thesis by (simp add: twiceMentioned_def)
qed

text \<open>
  C1 fails on a message with two mentions that both cover the code units 0 to 5:
  the sorted spans overlap, extraction returns a string all the same, from which the
  word after the mention is gone as well, and the pipeline sends that string to the
  answer backend.
\<close>

theorem extractQuestion_overlap_counterexample:
  "overlapDetected (sortByIndexDesc (the (mention twiceMentioned))) \<and>
   extractQuestion twiceMentioned = js ''time is it'' \<and>
   trim (remaining (text_m twiceMentioned) (the (mention twiceMentioned))) = js ''what time is it'' \<and>
   handleEvent (demoHost (JsonBatch []) answers delivers) (demoEnv None)
     ((groupEvent [] (Some (js ''T''))) \<lparr>message := TextMessage twiceMentioned\<rparr>) =
     (Inr (), [FetchOpenAI (js ''time is it''), FetchLine (Some (js ''T'')) (js ''sure'')])"
proof (intro conjI)
  show "overlapDetected (sortByIndexDesc (the (mention twiceMentioned)))"
    by (simp add: twiceMentioned_def twiceMentioned_sorted)
  show "extractQuestion twiceMentioned = js ''time is it''"
    by (rule twiceMentioned_question)
  show "trim (remaining (text_m twiceMentioned) (the (mention twiceMentioned))) =
      js ''what time is it''"
    by (simp add: twiceMentioned_def remaining_def covered_def trim_def isWhiteSpace_def js_def
        upt_rec)
  have q: "trim (js ''time is it'') = js ''time is it''"
    by (simp add: trim_def isWhiteSpace_def js_def)
  have ne: "js ''time is it'' \<noteq> []" by (simp add: js_def)
  have a: "queryOpenAI (demoHost (JsonBatch []) answers delivers) (js ''time is it'') =
      (Inr (js ''sure''), [FetchOpenAI (js ''time is it'')])"
    by (simp add: queryOpenAI_def demoHost_def answers_def ok_def extractOpenAIText_def
        trim_def isWhiteSpace_def slice_js_def sliceBound_def js_def)
  have r: "replyToLine (demoHost (JsonBatch []) answers delivers)
      ((groupEvent [] (Some (js ''T''))) \<lparr>message := TextMessage twiceMentioned\<rparr>) (js ''sure'') =
      (Inr (), [FetchLine (Some (js ''T'')) (js ''sure'')])"
    by (simp add: replyToLine_def groupEvent_def delivers_def ok_def demoHost_def js_def)
  have m: "isBotMentioned twiceMentioned (LINE_BOT_USER_ID (demoEnv None))"
    by (simp add: isBotMentioned_def twiceMentioned_def demoEnv_def)
  show "handleEvent (demoHost (JsonBatch []) answers delivers) (demoEnv None)
     ((groupEvent [] (Some (js ''T''))) \<lparr>message := TextMessage twiceMentioned\<rparr>) =
     (Inr (), [FetchOpenAI (js ''time is it''), FetchLine (Some (js ''T'')) (js ''sure'')])"
    unfolding handleEvent_def
    by (simp add: twiceMentioned_question q a ne r m Let_def)
       (simp add: groupEvent_def)
qed

section \<open>Eligibility\<close>

lemma queryOpenAI_effects: "\<exists>rest. snd (queryOpenAI h q) = FetchOpenAI q # rest"
  by (simp add: queryOpenAI_def split: fetched.split option.split)

lemma queryOpenAI0_effects: "\<exists>rest. snd (queryOpenAI0 h q) = FetchOpenAI q # rest"
  by (simp add: queryOpenAI0_def split: fetched.split option.split json.split)

lemma isBotMentioned_iff:
  "isBotMentioned msg b \<longleftrightarrow> (\<exists>ms. mention msg = Some ms \<and> (\<exists>m\<in>set ms. userId_m m = Some b))"
  by (cases "mention msg") (simp_all add: isBotMentioned_def list_ex_iff)

lemma handleEvent_eligible:
  assumes "type_e ev = js ''message''" and "message ev = TextMessage msg"
    and "(isDirectChat ev \<and> isDirectChatEnabled h env) \<or> isBotMentioned msg (LINE_BOT_USER_ID env)"
    and "trim (extractQuestion msg) \<noteq> []"
  shows "\<exists>rest. snd (handleEvent h env ev) = FetchOpenAI (trim (extractQuestion msg)) # rest"
proof -
  obtain rest where r: "snd (queryOpenAI h (trim (extractQuestion msg))) =
      FetchOpenAI (trim (extractQuestion msg)) # rest"
    using queryOpenAI_effects by blast
  obtain res effs where q: "queryOpenAI h (trim (extractQuestion msg)) = (res, effs)"
    by (cases "queryOpenAI h (trim (extractQuestion msg))")
  with r have e: "effs = FetchOpenAI (trim (extractQuestion msg)) # rest" by simp
  show ?thesis
    using assms q e
    by (cases res; cases "replyToLine h ev (projr res)")
       (auto simp: handleEvent_def Let_def)
qed

lemma handleEvent_not_eligible:
  assumes "type_e ev = js ''message''" and "message ev = TextMessage msg"
    and "\<not> ((isDirectChat ev \<and> isDirectChatEnabled h env) \<or>
            isBotMentioned msg (LINE_BOT_USER_ID env))"
  shows "handleEvent h env ev = (Inr (), [])"
  using assms by (auto simp: handleEvent_def Let_def)

lemma handleEvent0_eligible:
  assumes "type_e ev = js ''message''" and "message ev = TextMessage msg"
    and "isBotMentioned msg (LINE_BOT_USER_ID env0)"
    and "trim (extractQuestion msg) \<noteq> []"
  shows "\<exists>rest. snd (handleEvent0 h env0 ev) = FetchOpenAI (trim (extractQuestion msg)) # rest"
proof -
  obtain rest where r: "snd (queryOpenAI0 h (trim (extractQuestion msg))) =
      FetchOpenAI (trim (extractQuestion msg)) # rest"
    using queryOpenAI0_effects by blast
  obtain res effs where q: "queryOpenAI0 h (trim (extractQuestion msg)) = (res, effs)"
    by (cases "queryOpenAI0 h (trim (extractQuestion msg))")
  with r have e: "effs = FetchOpenAI (trim (extractQuestion msg)) # rest" by simp
  show ?thesis
    using assms q e
    by (cases res; cases "replyToLine0 h (replyToken ev) (projr res)")
       (auto simp: handleEvent0_def Let_def)
qed

lemma handleEvent0_not_eligible:
  assumes "type_e ev = js ''message''" and "message ev = TextMessage msg"
    and "\<not> isBotMentioned msg (LINE_BOT_USER_ID env0)"
  shows "handleEvent0 h env0 ev = (Inr (), [])"
  using assms by (auto simp: handleEvent0_def Let_def)

text \<open>
  C3. For an event that is a text message: when the source is a one-to-one
  conversation (a user id, no group id, no room id) and the direct-chat flag is
  enabled, or else when the bot's user id is the \<open>userId\<close> of one of the mention
  entries, the pipeline goes on with the extracted question (if that is not empty, the
  answer backend is asked); in every other case the pipeline ends without any effect,
  so a one-to-one message with the flag disabled and no mention of the bot gets no
  reply. The older worker has no flag and goes on exactly when the bot is mentioned.
\<close>

theorem handleEvent_eligibility:
  assumes "type_e ev = js ''message''" and "message ev = TextMessage msg"
  shows
    "(((\<not> falsy (userId (source ev)) \<and> falsy (groupId (source ev)) \<and> falsy (roomId (source ev))) \<and>
        isDirectChatEnabled h env) \<or>
       (\<exists>ms. mention msg = Some ms \<and> (\<exists>m\<in>set ms. userId_m m = Some (LINE_BOT_USER_ID env)))
       \<longrightarrow> trim (extractQuestion msg) \<noteq> []
       \<longrightarrow> (\<exists>rest. snd (handleEvent h env ev) = FetchOpenAI (trim (extractQuestion msg)) # rest)) \<and>
     (\<not> (((\<not> falsy (userId (source ev)) \<and> falsy (groupId (source ev)) \<and> falsy (roomId (source ev))) \<and>
        isDirectChatEnabled h env) \<or>
       (\<exists>ms. mention msg = Some ms \<and> (\<exists>m\<in>set ms. userId_m m = Some (LINE_BOT_USER_ID env))))
       \<longrightarrow> handleEvent h env ev = (Inr (), [])) \<and>
     ((\<exists>ms. mention msg = Some ms \<and> (\<exists>m\<in>set ms. userId_m m = Some (LINE_BOT_USER_ID env0)))
       \<longrightarrow> trim (extractQuestion msg) \<noteq> []
       \<longrightarrow> (\<exists>rest. snd (handleEvent0 h env0 ev) = FetchOpenAI (trim (extractQuestion msg)) # rest)) \<and>
     (\<not> (\<exists>ms. mention msg = Some ms \<and> (\<exists>m\<in>set ms. userId_m m = Some (LINE_BOT_USER_ID env0)))
       \<longrightarrow> handleEvent0 h env0 ev = (Inr (), []))"
  using handleEvent_eligible [OF assms, of h env] handleEvent_not_eligible [OF assms, of h env]
    handleEvent0_eligible [OF assms, of env0 h] handleEvent0_not_eligible [OF assms, of env0 h]
  unfolding isBotMentioned_iff isDirectChat_def
  by blast

theorem handleEvent_eligibility_witness:
  "type_e (directEvent (js ''hi'')) = js ''message'' \<and>
   message (directEvent (js ''hi'')) = TextMessage \<lparr>text_m = js ''hi'', mention = None\<rparr> \<and>
   handleEvent (demoHost (JsonBatch []) answers delivers) (demoEnv None) (directEvent (js ''hi'')) =
     (Inr (), []) \<and>
   (\<exists>rest. snd (handleEvent (demoHost (JsonBatch []) answers delivers) (demoEnv (Some (js ''true'')))
      (directEvent (js ''hi''))) = FetchOpenAI (js ''hi'') # rest)"
proof -
  let ?h = "demoHost (JsonBatch []) answers delivers"
  let ?ev = "directEvent (js ''hi'')"
  let ?msg = "\<lparr>text_m = js ''hi'', mention = None\<rparr>"
  have t: "type_e ?ev = js ''message''" by (simp add: directEvent_def)
  have m: "message ?ev = TextMessage ?msg" by (simp add: directEvent_def)
  have q: "trim (extractQuestion ?msg) = js ''hi''"
    by (simp add: extractQuestion_def trim_def isWhiteSpace_def js_def)
  have ne: "js ''hi'' \<noteq> []" by (simp add: js_def)
  have off: "\<not> isDirectChatEnabled ?h (demoEnv None)"
    by (simp add: isDirectChatEnabled_def demoEnv_def)
  have on: "isDirectChatEnabled ?h (demoEnv (Some (js ''true'')))"
    by (simp add: isDirectChatEnabled_def demoEnv_def demoHost_def toLowerCaseAscii_def
        trim_def isWhiteSpace_def js_def)
  have s: "\<not> falsy (userId (source ?ev)) \<and> falsy (groupId (source ?ev)) \<and>
      falsy (roomId (source ?ev))"
    by (simp add: directEvent_def js_def)
  note A = handleEvent_eligibility [OF t m, of ?h "demoEnv None" demoEnv0]
  note B = handleEvent_eligibility [OF t m, of ?h "demoEnv (Some (js ''true''))" demoEnv0]
  have 1: "handleEvent ?h (demoEnv None) ?ev = (Inr (), [])"
    using A off by simp
  have 2: "\<exists>rest. snd (handleEvent ?h (demoEnv (Some (js ''true''))) ?ev) =
      FetchOpenAI (js ''hi'') # rest"
    using B on s q ne by simp
  from t m 1 2 show ?thesis by (intro conjI)
qed

section \<open>The direct-chat flag\<close>

text \<open>
  C7. The direct-chat allowance is enabled exactly when the flag, trimmed and then
  lower-cased, is one of \<open>true\<close>, \<open>1\<close>, \<open>yes\<close>, \<open>on\<close>; an absent flag and the
  empty string give disabled. (\<open>toLowerCase\<close> is the host's; all that is used of it
  is that it maps the empty string to itself.)
\<close>

theorem isDirectChatEnabled_iff:
  assumes "toLowerCase h [] = []"
  shows "isDirectChatEnabled h env \<longleftrightarrow>
     (case ENABLE_DIRECT_CHAT_REPLY env of
        None \<Rightarrow> False
      | Some flag \<Rightarrow> toLowerCase h (trim flag) \<in> {js ''true'', js ''1'', js ''yes'', js ''on''})"
proof (cases "ENABLE_DIRECT_CHAT_REPLY env")
  case None
  then show ?thesis by (simp add: isDirectChatEnabled_def)
next
  case (Some flag)
  show ?thesis
  proof (cases "flag = []")
    case True
    have "toLowerCase h (trim []) = []" using assms by (simp add: trim_def)
    with True Some show ?thesis by (simp add: isDirectChatEnabled_def js_def)
  next
    case False
    with Some show ?thesis by (auto simp: isDirectChatEnabled_def Let_def)
  qed
qed

lemma normalized_examples:
  "toLowerCaseAscii (trim (js ''TRUE'')) = js ''true''"
  "toLowerCaseAscii (trim (js '' 1 '')) = js ''1''"
  "toLowerCaseAscii (trim (js ''yes'')) = js ''yes''"
  "toLowerCaseAscii (trim (js ''On'')) = js ''on''"
  "toLowerCaseAscii (trim (js ''nope'')) = js ''nope''"
  "toLowerCaseAscii (trim []) = []"
  by (simp_all add: toLowerCaseAscii_def trim_def isWhiteSpace_def js_def)

theorem isDirectChatEnabled_iff_witness:
  "toLowerCase (demoHost (JsonBatch []) answers delivers) [] = [] \<and>
   isDirectChatEnabled (demoHost (JsonBatch []) answers delivers) (demoEnv (Some (js ''TRUE''))) \<and>
   isDirectChatEnabled (demoHost (JsonBatch []) answers delivers) (demoEnv (Some (js '' 1 ''))) \<and>
   isDirectChatEnabled (demoHost (JsonBatch []) answers delivers) (demoEnv (Some (js ''yes''))) \<and>
   isDirectChatEnabled (demoHost (JsonBatch []) answers delivers) (demoEnv (Some (js ''On''))) \<and>
   \<not> isDirectChatEnabled (demoHost (JsonBatch []) answers delivers) (demoEnv (Some (js ''nope''))) \<and>
   \<not> isDirectChatEnabled (demoHost (JsonBatch []) answers delivers) (demoEnv (Some [])) \<and>
   \<not> isDirectChatEnabled (demoHost (JsonBatch []) answers delivers) (demoEnv None)"
proof -
  let ?h = "demoHost (JsonBatch []) answers delivers"
  have l: "toLowerCase ?h = toLowerCaseAscii" by (simp add: demoHost_def)
  have e: "toLowerCase ?h [] = []" by (simp add: l toLowerCaseAscii_def)
  have f: "ENABLE_DIRECT_CHAT_REPLY (demoEnv x) = x" for x by (simp add: demoEnv_def)
  have d: "js ''nope'' \<notin> {js ''true'', js ''1'', js ''yes'', js ''on''}"
    "[] \<notin> {js ''true'', js ''1'', js ''yes'', js ''on''}"
    by (simp_all add: js_def)
  note T = isDirectChatEnabled_iff [OF e]
  have 1: "isDirectChatEnabled ?h (demoEnv (Some (js ''TRUE'')))"
    unfolding T f l by (simp add: normalized_examples)
  have 2: "isDirectChatEnabled ?h (demoEnv (Some (js '' 1 '')))"
    unfolding T f l by (simp add: normalized_examples)
  have 3: "isDirectChatEnabled ?h (demoEnv (Some (js ''yes'')))"
    unfolding T f l by (simp add: normalized_examples)
  have 4: "isDirectChatEnabled ?h (demoEnv (Some (js ''On'')))"
    unfolding T f l by (simp add: normalized_examples)
  have 5: "\<not> isDirectChatEnabled ?h (demoEnv (Some (js ''nope'')))"
    unfolding T f l using d by (simp add: normalized_examples)
  have 6: "\<not> isDirectChatEnabled ?h (demoEnv (Some []))"
    unfolding T f l using d by (simp add: normalized_examples)
  have 7: "\<not> isDirectChatEnabled ?h (demoEnv None)"
    unfolding T f by simp
  from e 1 2 3 4 5 6 7 show ?thesis by (intro conjI)
qed

section \<open>The answer is cut before it is sent\<close>

lemma length_slice_js: "0 \<le> n \<Longrightarrow> length (slice_js s 0 (Some n)) \<le> nat n"
  by (auto simp: slice_js_def sliceBound_def Let_def)

lemma queryOpenAI_answer:
  "queryOpenAI h q = (Inr a, effs) \<Longrightarrow> length a \<le> 1900 \<and> effs = [FetchOpenAI q]"
  using length_slice_js [of 1900]
  by (auto simp: queryOpenAI_def split: fetched.splits option.splits if_splits)

lemma queryOpenAI0_answer:
  "queryOpenAI0 h q = (Inr a, effs) \<Longrightarrow> length a \<le> 1900 \<and> effs = [FetchOpenAI q]"
  using length_slice_js [of 1900]
  by (auto simp: queryOpenAI0_def split: fetched.splits option.splits json.splits if_splits)

lemma replyToLine_text: "FetchLine tok sent \<in> set (snd (replyToLine h ev msg)) \<Longrightarrow> sent = msg"
  by (auto simp: replyToLine_def split: fetched.splits if_splits)

lemma replyToLine0_text: "FetchLine tok sent \<in> set (snd (replyToLine0 h token msg)) \<Longrightarrow> sent = msg"
  by (auto simp: replyToLine0_def split: fetched.splits if_splits)

lemma handleEvent_reply_length:
  assumes "FetchLine tok sent \<in> set (snd (handleEvent h env ev))"
  shows "length sent \<le> 1900"
proof -
  let ?q = "trim (extractQuestion (case message ev of TextMessage msg \<Rightarrow> msg))"
  obtain res effs where q: "queryOpenAI h ?q = (res, effs)" by (cases "queryOpenAI h ?q")
  show ?thesis
  proof (cases res)
    case (Inl e)
    have "FetchLine tok sent \<notin> set effs"
      using queryOpenAI_effects [of h ?q] q Inl
      by (auto simp: queryOpenAI_def split: fetched.splits option.splits if_splits)
    with assms q Inl show ?thesis
      by (auto simp: handleEvent_def Let_def split: if_splits Message.splits)
  next
    case (Inr a)
    with q have a: "length a \<le> 1900" "effs = [FetchOpenAI ?q]"
      using queryOpenAI_answer by blast+
    obtain r effs' where r: "replyToLine h ev a = (r, effs')" by (cases "replyToLine h ev a")
    have "sent = a" if "FetchLine tok sent \<in> set effs'"
      using that r replyToLine_text [of tok sent h ev a] by simp
    with assms q Inr a r show ?thesis
      by (auto simp: handleEvent_def Let_def split: if_splits Message.splits)
  qed
qed

lemma handleEvent0_reply_length:
  assumes "FetchLine tok sent \<in> set (snd (handleEvent0 h env0 ev))"
  shows "length sent \<le> 1900"
proof -
  let ?q = "trim (extractQuestion (case message ev of TextMessage msg \<Rightarrow> msg))"
  obtain res effs where q: "queryOpenAI0 h ?q = (res, effs)" by (cases "queryOpenAI0 h ?q")
  show ?thesis
  proof (cases res)
    case (Inl e)
    have "FetchLine tok sent \<notin> set effs"
      using q Inl
      by (auto simp: queryOpenAI0_def split: fetched.splits option.splits json.splits if_splits)
    with assms q Inl show ?thesis
      by (auto simp: handleEvent0_def Let_def split: if_splits Message.splits)
  next
    case (Inr a)
    with q have a: "length a \<le> 1900" "effs = [FetchOpenAI ?q]"
      using queryOpenAI0_answer by blast+
    obtain r effs' where r: "replyToLine0 h (replyToken ev) a = (r, effs')"
      by (cases "replyToLine0 h (replyToken ev) a")
    have "sent = a" if "FetchLine tok sent \<in> set effs'"
      using that r replyToLine0_text [of tok sent h "replyToken ev" a] by simp
    with assms q Inr a r show ?thesis
      by (auto simp: handleEvent0_def Let_def split: if_splits Message.splits)
  qed
qed

text \<open>
  C8. Every answer that \<open>queryOpenAI\<close> returns has at most 1900 code units, and so
  has every text that the pipeline of an event hands to the reply delivery; 1900 is
  within the cap of about 2000 characters. This holds for both workers.
\<close>

theorem reply_text_truncated:
  "(\<forall>a. fst (queryOpenAI h q) = Inr a \<longrightarrow> length a \<le> 1900) \<and>
   (\<forall>a. fst (queryOpenAI0 h q) = Inr a \<longrightarrow> length a \<le> 1900) \<and>
   (\<forall>tok sent. FetchLine tok sent \<in> set (snd (handleEvent h env ev)) \<longrightarrow> length sent \<le> 1900) \<and>
   (\<forall>tok sent. FetchLine tok sent \<in> set (snd (handleEvent0 h env0 ev)) \<longrightarrow> length sent \<le> 1900)"
proof (intro conjI allI impI)
  fix a assume "fst (queryOpenAI h q) = Inr a"
  then show "length a \<le> 1900"
    using queryOpenAI_answer [of h q a "snd (queryOpenAI h q)"] by (metis prod.collapse)
next
  fix a assume "fst (queryOpenAI0 h q) = Inr a"
  then show "length a \<le> 1900"
    using queryOpenAI0_answer [of h q a "snd (queryOpenAI0 h q)"] by (metis prod.collapse)
next
  fix tok sent assume "FetchLine tok sent \<in> set (snd (handleEvent h env ev))"
  then show "length sent \<le> 1900" by (rule handleEvent_reply_length)
next
  fix tok sent assume "FetchLine tok sent \<in> set (snd (handleEvent0 h env0 ev))"
  then show "length sent \<le> 1900" by (rule handleEvent0_reply_length)
qed

lemma verbose_answer:
  "queryOpenAI (demoHost p verbose ln) q = (Inr (replicate 1900 97), [FetchOpenAI q])"
proof -
  have w: "\<not> isWhiteSpace 97" by (simp add: isWhiteSpace_def)
  then have t: "trim (replicate 2000 97) = replicate 2000 97"
    by (simp add: trim_def dropWhile_replicate)
  have e: "extractOpenAIText (JObject [(js ''output_text'', JString (replicate 2000 97)),
         (js ''choices'', JArray [JObject [(js ''message'',
            JObject [(js ''content'', JString (replicate 2000 97))])]])]) =
      Some (replicate 2000 97)"
    by (simp add: extractOpenAIText_def t)
  have s: "slice_js (replicate 2000 97) 0 (Some 1900) = replicate 1900 97"
    by (simp add: slice_js_def sliceBound_def)
  show ?thesis
    by (simp add: queryOpenAI_def demoHost_def verbose_def ok_def e s)
qed

theorem reply_text_truncated_witness:
  "FetchLine (Some (js ''T'')) (replicate 1900 97) \<in>
     set (snd (handleEvent (demoHost (JsonBatch []) verbose delivers) (demoEnv None)
       (groupEvent (js ''hi'') (Some (js ''T''))))) \<and>
   length (replicate 1900 (97 :: jschar)) \<le> 1900"
proof -
  let ?h = "demoHost (JsonBatch []) verbose delivers"
  let ?ev = "groupEvent (js ''hi'') (Some (js ''T''))"
  have q: "trim (extractQuestion \<lparr>text_m = js ''@bot '' @ js ''hi'',
        mention = Some [\<lparr>index = 0, length_m = 4, userId_m = Some (js ''Ubot'')\<rparr>]\<rparr>) = js ''hi''"
    by (simp add: extractQuestion_def sortByIndexDesc_def removeSpan_def slice_js_def
        sliceBound_def trim_def isWhiteSpace_def js_def)
  have ne: "js ''hi'' \<noteq> []" by (simp add: js_def)
  have r: "replyToLine ?h ?ev (replicate 1900 97) =
      (Inr (), [FetchLine (Some (js ''T'')) (replicate 1900 97)])"
    by (simp add: replyToLine_def groupEvent_def delivers_def ok_def demoHost_def js_def)
  have "handleEvent ?h (demoEnv None) ?ev =
      (Inr (), [FetchOpenAI (js ''hi''), FetchLine (Some (js ''T'')) (replicate 1900 97)])"
    unfolding handleEvent_def
    by (simp add: groupEvent_def isBotMentioned_def demoEnv_def q ne verbose_answer Let_def
        r [unfolded groupEvent_def])
  then have m: "FetchLine (Some (js ''T'')) (replicate 1900 97) \<in>
      set (snd (handleEvent ?h (demoEnv None) ?ev))"
    by simp
  have "length (replicate 1900 (97 :: jschar)) \<le> 1900"
    by (rule reply_text_truncated [THEN conjunct2, THEN conjunct2, THEN conjunct1,
          THEN spec, THEN spec, THEN mp, OF m])
  with m show ?thesis by (intro conjI)
qed

section \<open>A reply without a reply token\<close>

text \<open>
  In \<open>index.ts\<close> a missing or empty reply token makes the delivery a no-op: a
  warning is logged, nothing is sent, and no error is raised.
\<close>

lemma replyToLine_no_token:
  "falsy (replyToken ev) \<Longrightarrow>
   replyToLine h ev msg = (Inr (), [WarnNoReplyToken (webhookEventId ev)])"
  by (simp add: replyToLine_def)

text \<open>The older worker sends the reply whatever the token is.\<close>

lemma replyToLine0_sends:
  "\<exists>rest. snd (replyToLine0 h token msg) = FetchLine token msg # rest"
  by (simp add: replyToLine0_def split: fetched.split)

lemma demo_question:
  "trim (extractQuestion \<lparr>text_m = js ''@bot '' @ q,
     mention = Some [\<lparr>index = 0, length_m = 4, userId_m = u\<rparr>]\<rparr>) = trim (trim (js '' '' @ q))"
  by (simp add: extractQuestion_def sortByIndexDesc_def removeSpan_def slice_js_def
      sliceBound_def js_def)

lemma demo_answer:
  "q \<noteq> js ''fail'' \<Longrightarrow>
   queryOpenAI (demoHost p answers ln) q = (Inr (js ''sure''), [FetchOpenAI q])"
  "q \<noteq> js ''fail'' \<Longrightarrow>
   queryOpenAI0 (demoHost p answers ln) q = (Inr (js ''sure''), [FetchOpenAI q])"
  "queryOpenAI (demoHost p answers ln) (js ''fail'') =
     (Inl (OpenAIFailed 500), [FetchOpenAI (js ''fail''), LogOpenAIError 500])"
  by (simp_all add: queryOpenAI_def queryOpenAI0_def demoHost_def answers_def ok_def
      extractOpenAIText_def trim_def isWhiteSpace_def slice_js_def sliceBound_def js_def)

text \<open>
  C9, on the older worker: for a message whose reply token is missing, the reply is
  sent all the same and the pipeline ends in the error of the failed delivery, where
  \<open>index.ts\<close> on the same event skips the delivery and logs a warning.
\<close>

theorem replyToLine0_without_token:
  "handleEvent0 (demoHost (JsonBatch []) answers delivers) demoEnv0 (groupEvent (js ''hi'') None) =
     (Inl (LineReplyFailed 400),
      [FetchOpenAI (js ''hi''), FetchLine None (js ''sure''), LogLineError 400]) \<and>
   handleEvent0 (demoHost (JsonBatch []) answers delivers) demoEnv0
       (groupEvent (js ''hi'') (Some [])) =
     (Inl (LineReplyFailed 400),
      [FetchOpenAI (js ''hi''), FetchLine (Some []) (js ''sure''), LogLineError 400]) \<and>
   handleEvent (demoHost (JsonBatch []) answers delivers) (demoEnv None)
       (groupEvent (js ''hi'') None) =
     (Inr (), [FetchOpenAI (js ''hi''), WarnNoReplyToken (js ''E1'')])"
proof -
  let ?h = "demoHost (JsonBatch []) answers delivers"
  have q: "trim (trim (js '' '' @ js ''hi'')) = js ''hi''"
    by (simp add: trim_def isWhiteSpace_def js_def)
  have ne: "js ''hi'' \<noteq> []" "js ''hi'' \<noteq> js ''fail''" by (simp_all add: js_def)
  have r0: "replyToLine0 ?h token (js ''sure'') =
      (Inl (LineReplyFailed 400), [FetchLine token (js ''sure''), LogLineError 400])"
    if "falsy token" for token
    using that by (simp add: replyToLine0_def demoHost_def delivers_def ok_def)
  have 1: "handleEvent0 ?h demoEnv0 (groupEvent (js ''hi'') token) =
     (Inl (LineReplyFailed 400),
      [FetchOpenAI (js ''hi''), FetchLine token (js ''sure''), LogLineError 400])"
    if "falsy token" for token
    unfolding handleEvent0_def
    by (simp add: groupEvent_def isBotMentioned_def demoEnv0_def demo_question q ne
        demo_answer r0 [OF that] Let_def)
  have 2: "handleEvent ?h (demoEnv None) (groupEvent (js ''hi'') None) =
     (Inr (), [FetchOpenAI (js ''hi''), WarnNoReplyToken (js ''E1'')])"
    unfolding handleEvent_def
    by (simp add: groupEvent_def isBotMentioned_def demoEnv_def demo_question q ne
        demo_answer replyToLine_no_token Let_def)
  from 1 [of None] 1 [of "Some []"] 2 show ?thesis by simp
qed

section \<open>The request handler\<close>

lemma interleaving_Cons_iff:
  "interleaving xss (x # t) \<longleftrightarrow>
     (\<exists>i ys. i < length xss \<and> xss ! i = x # ys \<and> interleaving (xss[i := ys]) t)"
proof
  assume "interleaving xss (x # t)"
  then obtain i where i: "i < length xss"
    and c: "case xss ! i of [] \<Rightarrow> False | y # ys \<Rightarrow> y = x \<and> interleaving (xss[i := ys]) t"
    by (auto simp: list_ex_iff)
  from c obtain ys where "xss ! i = x # ys" "interleaving (xss[i := ys]) t"
    by (cases "xss ! i") auto
  with i show "\<exists>i ys. i < length xss \<and> xss ! i = x # ys \<and> interleaving (xss[i := ys]) t"
    by blast
next
  assume "\<exists>i ys. i < length xss \<and> xss ! i = x # ys \<and> interleaving (xss[i := ys]) t"
  then obtain i ys where "i < length xss" "xss ! i = x # ys" "interleaving (xss[i := ys]) t"
    by blast
  then have "\<exists>i\<in>set [0..<length xss].
      case xss ! i of [] \<Rightarrow> False | y # ys \<Rightarrow> y = x \<and> interleaving (xss[i := ys]) t"
    by (intro bexI [of _ i]) simp_all
  then show "interleaving xss (x # t)" by (simp add: list_ex_iff)
qed

text \<open>In an interleaving of lists, each of the lists is a subsequence.\<close>

lemma interleaving_subseq:
  "interleaving xss t \<Longrightarrow> i < length xss \<Longrightarrow> subseq (xss ! i) t"
proof (induction t arbitrary: xss)
  case Nil
  then show ?case by (simp add: list_all_length)
next
  case (Cons x t)
  from Cons.prems(1) obtain j ys where j: "j < length xss" and hd: "xss ! j = x # ys"
    and rest: "interleaving (xss[j := ys]) t"
    unfolding interleaving_Cons_iff by blast
  have sub: "subseq ((xss[j := ys]) ! i) t"
    using Cons.IH [OF rest] Cons.prems(2) by simp
  show ?case
  proof (cases "i = j")
    case True
    with j hd sub show ?thesis by simp
  next
    case False
    with sub have "subseq (xss ! i) t" by simp
    then show ?thesis by (rule list_emb_Cons)
  qed
qed

text \<open>Every list of lists has an interleaving: one list after the other.\<close>

lemma interleaving_skip: "interleaving xss t \<Longrightarrow> interleaving ([] # xss) t"
proof (induction t arbitrary: xss)
  case Nil
  then show ?case by simp
next
  case (Cons x t)
  from Cons.prems obtain j ys where j: "j < length xss" and hd: "xss ! j = x # ys"
    and rest: "interleaving (xss[j := ys]) t"
    unfolding interleaving_Cons_iff by blast
  have "interleaving (([] # xss)[Suc j := ys]) t"
    using Cons.IH [OF rest] by simp
  moreover have "Suc j < length ([] # xss)" "([] # xss) ! Suc j = x # ys"
    using j hd by simp_all
  ultimately show ?case unfolding interleaving_Cons_iff by blast
qed

lemma interleaving_first: "interleaving xss t \<Longrightarrow> interleaving (xs # xss) (xs @ t)"
proof (induction xs)
  case Nil
  then show ?case by (simp add: interleaving_skip)
next
  case (Cons a xs)
  then have "interleaving (((a # xs) # xss)[0 := xs]) (xs @ t)" by simp
  moreover have "0 < length ((a # xs) # xss)" "((a # xs) # xss) ! 0 = a # xs" by simp_all
  ultimately show ?case
    unfolding interleaving_Cons_iff append_Cons by blast
qed

lemma interleaving_concat: "interleaving xss (concat xss)"
  by (induction xss) (simp_all add: interleaving_first)

lemma task_effects:
  "\<exists>logged. task h env ev = snd (handleEvent h env ev) @ logged \<and>
     (\<forall>e. fst (handleEvent h env ev) = Inl e \<longrightarrow> logged = [LogEventError e])"
  by (cases "handleEvent h env ev"; cases "fst (handleEvent h env ev)") (auto simp: task_def)

lemma timingSafeEqual_same: "timingSafeEqual a a"
proof -
  have "foldl (\<lambda>r i. r OR (charCodeAt a i XOR charCodeAt a i)) 0 [0..<length a] = 0"
    unfolding foldl_or_zero by simp
  then show ?thesis by (simp only: timingSafeEqual_def simp_thms if_False)
qed

lemma demo_verified:
  "verifyLineSignature (demoHost p ai ln) (js ''{}'') (Some (js ''k'' @ js ''{}'')) (js ''k'')"
  "verifyLineSignature (demoHost p ai ln) (js ''{'') (Some (js ''k'' @ js ''{'')) (js ''k'')"
  "verifyLineSignature (demoHost p ai ln) (js ''{events:[e1,e2,e3]}'')
     (Some (js ''k'' @ js ''{events:[e1,e2,e3]}'')) (js ''k'')"
  by (simp_all add: verifyLineSignature_def arrayBufferToBase64_def demoHost_def
      timingSafeEqual_same js_def)

lemma fetch_batch:
  assumes "method_r req = js ''POST''"
    and "JSON_parse h (bodyText req) = JsonBatch events"
    and "verifyLineSignature h (bodyText req) (signature req) (LINE_CHANNEL_SECRET env)"
  shows "fetch h env req =
     \<lparr>outcome = Inr (Response (js ''OK'') 200), handlerEffects = [],
      pipelines = map (task h env) events, joinEffects = []\<rparr>"
  using assms by (simp add: fetch_def)

lemma fetch0_batch:
  assumes "method_r req = js ''POST''"
    and "JSON_parse h (bodyText req) = JsonBatch events"
    and "verifyLineSignature h (bodyText req) (signature req) (LINE_CHANNEL_SECRET env0)"
  shows "fetch0 h env0 req =
     \<lparr>outcome = Inr (Response (js ''OK'') 200), handlerEffects = [],
      pipelines = map snd (map (handleEvent0 h env0) events),
      joinEffects = firstError (map (handleEvent0 h env0) events)\<rparr>"
  using assms by (simp add: fetch0_def Let_def)

text \<open>
  C6. For a batch from a verified request, whether or not the answer backend or the
  reply delivery fails for some of its events: the response is 200 \<open>OK\<close>; there is
  one pipeline for every event; and in every trace of the concurrent pipelines,
  however they interleave, the effects of the pipeline of every event, as that event
  alone determines them, occur in their order, and in \<open>index.ts\<close> the error of every
  failed pipeline is caught and logged. This holds for both workers.
\<close>

theorem fetch_batch_contains_failures:
  assumes "method_r req = js ''POST''"
    and "JSON_parse h (bodyText req) = JsonBatch events"
  shows
    "(verifyLineSignature h (bodyText req) (signature req) (LINE_CHANNEL_SECRET env) \<longrightarrow>
        outcome (fetch h env req) = Inr (Response (js ''OK'') 200) \<and>
        length (pipelines (fetch h env req)) = length events \<and>
        (\<forall>trace. interleaving (pipelines (fetch h env req)) trace \<longrightarrow>
           (\<forall>i<length events.
              subseq (snd (handleEvent h env (events ! i))) trace \<and>
              (\<forall>e. fst (handleEvent h env (events ! i)) = Inl e \<longrightarrow>
                 LogEventError e \<in> set trace)))) \<and>
     (verifyLineSignature h (bodyText req) (signature req) (LINE_CHANNEL_SECRET env0) \<longrightarrow>
        outcome (fetch0 h env0 req) = Inr (Response (js ''OK'') 200) \<and>
        length (pipelines (fetch0 h env0 req)) = length events \<and>
        (\<forall>trace. interleaving (pipelines (fetch0 h env0 req)) trace \<longrightarrow>
           (\<forall>i<length events. subseq (snd (handleEvent0 h env0 (events ! i))) trace)))"
proof (intro conjI impI allI)
  assume v: "verifyLineSignature h (bodyText req) (signature req) (LINE_CHANNEL_SECRET env)"
  note f = fetch_batch [OF assms v]
  show "outcome (fetch h env req) = Inr (Response (js ''OK'') 200)" by (simp add: f)
  show "length (pipelines (fetch h env req)) = length events" by (simp add: f)
  fix trace i
  assume t: "interleaving (pipelines (fetch h env req)) trace" and i: "i < length events"
  from t have t': "interleaving (map (task h env) events) trace"
    by (simp only: f Handled.simps)
  from i have i': "i < length (map (task h env) events)" by simp
  have "subseq (map (task h env) events ! i) trace"
    using t' i' by (rule interleaving_subseq)
  then have s: "subseq (task h env (events ! i)) trace" using i by simp
  obtain logged where l: "task h env (events ! i) = snd (handleEvent h env (events ! i)) @ logged"
    and e: "\<forall>e. fst (handleEvent h env (events ! i)) = Inl e \<longrightarrow> logged = [LogEventError e]"
    using task_effects by blast
  have "subseq (snd (handleEvent h env (events ! i))) (task h env (events ! i))"
    unfolding l by (rule prefix_imp_subseq) simp
  then show "subseq (snd (handleEvent h env (events ! i))) trace"
    using s by (rule subseq_order.order_trans)
  fix err assume "fst (handleEvent h env (events ! i)) = Inl err"
  with e have "logged = [LogEventError err]" by simp
  with l have m: "LogEventError err \<in> set (task h env (events ! i))" by simp
  from list_emb_set [OF s m] show "LogEventError err \<in> set trace" by blast
next
  assume v: "verifyLineSignature h (bodyText req) (signature req) (LINE_CHANNEL_SECRET env0)"
  note f = fetch0_batch [OF assms v]
  show "outcome (fetch0 h env0 req) = Inr (Response (js ''OK'') 200)" by (simp add: f)
  show "length (pipelines (fetch0 h env0 req)) = length events" by (simp add: f)
  fix trace i
  assume t: "interleaving (pipelines (fetch0 h env0 req)) trace" and i: "i < length events"
  from t have t': "interleaving (map snd (map (handleEvent0 h env0) events)) trace"
    by (simp only: f Handled.simps)
  from i have i': "i < length (map snd (map (handleEvent0 h env0) events))" by simp
  have "subseq (map snd (map (handleEvent0 h env0) events) ! i) trace"
    using t' i' by (rule interleaving_subseq)
  then show "subseq (snd (handleEvent0 h env0 (events ! i))) trace" using i by simp
qed

lemma demo_handleEvent:
  "handleEvent (demoHost p answers delivers) (demoEnv None) (groupEvent (js ''one'') (Some t)) =
     (if t = [] then (Inr (), [FetchOpenAI (js ''one''), WarnNoReplyToken (js ''E1'')])
      else (Inr (), [FetchOpenAI (js ''one''), FetchLine (Some t) (js ''sure'')]))"
  "handleEvent (demoHost p answers delivers) (demoEnv None) (groupEvent (js ''three'') (Some t)) =
     (if t = [] then (Inr (), [FetchOpenAI (js ''three''), WarnNoReplyToken (js ''E1'')])
      else (Inr (), [FetchOpenAI (js ''three''), FetchLine (Some t) (js ''sure'')]))"
  "handleEvent (demoHost p answers delivers) (demoEnv None) (groupEvent (js ''fail'') (Some t)) =
     (Inl (OpenAIFailed 500), [FetchOpenAI (js ''fail''), LogOpenAIError 500])"
proof -
  have q: "trim (trim (js '' '' @ js ''three'')) = js ''three''"
    "trim (trim (js '' '' @ js ''one'')) = js ''one''"
    "trim (trim (js '' '' @ js ''fail'')) = js ''fail''"
    by (simp_all add: trim_def isWhiteSpace_def js_def)
  have ne: "js ''three'' \<noteq> []" "js ''three'' \<noteq> js ''fail''" "js ''fail'' \<noteq> []"
    "js ''one'' \<noteq> []" "js ''one'' \<noteq> js ''fail''"
    by (simp_all add: js_def)
  show "handleEvent (demoHost p answers delivers) (demoEnv None) (groupEvent (js ''one'') (Some t)) =
     (if t = [] then (Inr (), [FetchOpenAI (js ''one''), WarnNoReplyToken (js ''E1'')])
      else (Inr (), [FetchOpenAI (js ''one''), FetchLine (Some t) (js ''sure'')]))"
    unfolding handleEvent_def
    by (simp add: groupEvent_def isBotMentioned_def demoEnv_def demo_question q ne
        demo_answer Let_def replyToLine_def)
       (simp add: demoHost_def delivers_def ok_def)
  show "handleEvent (demoHost p answers delivers) (demoEnv None) (groupEvent (js ''three'') (Some t)) =
     (if t = [] then (Inr (), [FetchOpenAI (js ''three''), WarnNoReplyToken (js ''E1'')])
      else (Inr (), [FetchOpenAI (js ''three''), FetchLine (Some t) (js ''sure'')]))"
    unfolding handleEvent_def
    by (simp add: groupEvent_def isBotMentioned_def demoEnv_def demo_question q ne
        demo_answer Let_def replyToLine_def)
       (simp add: demoHost_def delivers_def ok_def)
  show "handleEvent (demoHost p answers delivers) (demoEnv None) (groupEvent (js ''fail'') (Some t)) =
     (Inl (OpenAIFailed 500), [FetchOpenAI (js ''fail''), LogOpenAIError 500])"
    unfolding handleEvent_def
    by (simp add: groupEvent_def isBotMentioned_def demoEnv_def demo_question q ne
        demo_answer Let_def)
qed

theorem fetch_batch_contains_failures_witness:
  "method_r (demoRequest (js ''{events:[e1,e2,e3]}'')) = js ''POST'' \<and>
   JSON_parse (demoHost (JsonBatch threeEvents) answers delivers)
     (bodyText (demoRequest (js ''{events:[e1,e2,e3]}''))) = JsonBatch threeEvents \<and>
   fst (handleEvent (demoHost (JsonBatch threeEvents) answers delivers) (demoEnv None)
     (threeEvents ! 1)) = Inl (OpenAIFailed 500) \<and>
   interleaving
     (pipelines (fetch (demoHost (JsonBatch threeEvents) answers delivers) (demoEnv None)
        (demoRequest (js ''{events:[e1,e2,e3]}'')))) threeTrace \<and>
   outcome (fetch (demoHost (JsonBatch threeEvents) answers delivers) (demoEnv None)
     (demoRequest (js ''{events:[e1,e2,e3]}''))) = Inr (Response (js ''OK'') 200) \<and>
   subseq [FetchOpenAI (js ''one''), FetchLine (Some (js ''T1'')) (js ''sure'')] threeTrace \<and>
   subseq [FetchOpenAI (js ''three''), FetchLine (Some (js ''T3'')) (js ''sure'')] threeTrace \<and>
   LogEventError (OpenAIFailed 500) \<in> set threeTrace"
proof -
  let ?h = "demoHost (JsonBatch threeEvents) answers delivers"
  let ?req = "demoRequest (js ''{events:[e1,e2,e3]}'')"
  have m: "method_r ?req = js ''POST''" by (simp add: demoRequest_def)
  have p: "JSON_parse ?h (bodyText ?req) = JsonBatch threeEvents" by (simp add: demoHost_def)
  have v: "verifyLineSignature ?h (bodyText ?req) (signature ?req)
      (LINE_CHANNEL_SECRET (demoEnv None))"
    using demo_verified(3) [of "JsonBatch threeEvents" answers delivers]
    by (simp add: demoRequest_def demoEnv_def)
  have t: "js ''T1'' \<noteq> []" "js ''T3'' \<noteq> []" by (simp_all add: js_def)
  have e1: "handleEvent ?h (demoEnv None) (threeEvents ! 0) =
      (Inr (), [FetchOpenAI (js ''one''), FetchLine (Some (js ''T1'')) (js ''sure'')])"
    by (simp add: threeEvents_def demo_handleEvent t)
  have e2: "handleEvent ?h (demoEnv None) (threeEvents ! 1) =
      (Inl (OpenAIFailed 500), [FetchOpenAI (js ''fail''), LogOpenAIError 500])"
    by (simp add: threeEvents_def demo_handleEvent)
  have e3: "handleEvent ?h (demoEnv None) (threeEvents ! 2) =
      (Inr (), [FetchOpenAI (js ''three''), FetchLine (Some (js ''T3'')) (js ''sure'')])"
    by (simp add: threeEvents_def demo_handleEvent t)
  have l: "(0::nat) < length threeEvents" "(1::nat) < length threeEvents"
    "(2::nat) < length threeEvents"
    by (simp_all add: threeEvents_def)
  have pl: "pipelines (fetch ?h (demoEnv None) ?req) =
      [[FetchOpenAI (js ''one''), FetchLine (Some (js ''T1'')) (js ''sure'')],
       [FetchOpenAI (js ''fail''), LogOpenAIError 500, LogEventError (OpenAIFailed 500)],
       [FetchOpenAI (js ''three''), FetchLine (Some (js ''T3'')) (js ''sure'')]]"
  proof -
    have "pipelines (fetch ?h (demoEnv None) ?req) = map (task ?h (demoEnv None)) threeEvents"
      by (simp only: fetch_batch [OF m p v] Handled.select_convs)
    then show ?thesis
      by (simp add: threeEvents_def task_def demo_handleEvent t)
  qed
  have il: "interleaving (pipelines (fetch ?h (demoEnv None) ?req)) threeTrace"
    unfolding pl threeTrace_def
    by (simp add: upt_rec js_def)
  note T = fetch_batch_contains_failures [OF m p, of "demoEnv None" demoEnv0,
      THEN conjunct1, THEN mp, OF v]
  note U = T [THEN conjunct2, THEN conjunct2, THEN spec, THEN mp, OF il]
  have 1: "outcome (fetch ?h (demoEnv None) ?req) = Inr (Response (js ''OK'') 200)"
    by (rule T [THEN conjunct1])
  have 2: "subseq [FetchOpenAI (js ''one''), FetchLine (Some (js ''T1'')) (js ''sure'')] threeTrace"
    using U [THEN spec, THEN mp, OF l(1), THEN conjunct1] by (simp only: e1 snd_conv)
  have 3: "subseq [FetchOpenAI (js ''three''), FetchLine (Some (js ''T3'')) (js ''sure'')] threeTrace"
    using U [THEN spec, THEN mp, OF l(3), THEN conjunct1] by (simp only: e3 snd_conv)
  have 4: "fst (handleEvent ?h (demoEnv None) (threeEvents ! 1)) = Inl (OpenAIFailed 500)"
    by (simp only: e2 fst_conv)
  have 5: "LogEventError (OpenAIFailed 500) \<in> set threeTrace"
    by (rule U [THEN spec, THEN mp, OF l(2), THEN conjunct2, THEN spec, THEN mp, OF 4])
  from m p 4 il 1 2 3 5 show ?thesis by (intro conjI)
qed

section \<open>A body without a batch of events\<close>

text \<open>
  C2 fails on the body \<open>{}\<close>: the request passes signature verification, the body
  is valid JSON without an \<open>events\<close> array, and the handler returns no response at
  all; \<open>payload.events.map\<close> raises a \<open>TypeError\<close> that nothing catches.
\<close>

theorem fetch_no_events_counterexample:
  "verifyLineSignature (demoHost JsonNoEvents answers delivers) (bodyText (demoRequest (js ''{}'')))
     (signature (demoRequest (js ''{}''))) (LINE_CHANNEL_SECRET (demoEnv None)) \<and>
   JSON_parse (demoHost JsonNoEvents answers delivers) (bodyText (demoRequest (js ''{}''))) =
     JsonNoEvents \<and>
   fetch (demoHost JsonNoEvents answers delivers) (demoEnv None) (demoRequest (js ''{}'')) =
     \<lparr>outcome = Inl TypeError, handlerEffects = [], pipelines = [], joinEffects = []\<rparr> \<and>
   fetch0 (demoHost JsonNoEvents answers delivers) demoEnv0 (demoRequest (js ''{}'')) =
     \<lparr>outcome = Inl TypeError, handlerEffects = [], pipelines = [], joinEffects = []\<rparr>"
proof -
  let ?h = "demoHost JsonNoEvents answers delivers"
  let ?req = "demoRequest (js ''{}'')"
  have m: "method_r ?req = js ''POST''" by (simp add: demoRequest_def)
  have p: "JSON_parse ?h (bodyText ?req) = JsonNoEvents" by (simp add: demoHost_def)
  have v: "verifyLineSignature ?h (bodyText ?req) (signature ?req) (js ''k'')"
    using demo_verified(1) [of JsonNoEvents answers delivers] by (simp add: demoRequest_def)
  have s: "LINE_CHANNEL_SECRET (demoEnv None) = js ''k''" "LINE_CHANNEL_SECRET demoEnv0 = js ''k''"
    by (simp_all add: demoEnv_def demoEnv0_def)
  have 1: "fetch ?h (demoEnv None) ?req =
      \<lparr>outcome = Inl TypeError, handlerEffects = [], pipelines = [], joinEffects = []\<rparr>"
    using m p v by (simp add: fetch_def s)
  have 2: "fetch0 ?h demoEnv0 ?req =
      \<lparr>outcome = Inl TypeError, handlerEffects = [], pipelines = [], joinEffects = []\<rparr>"
    using m p v by (simp add: fetch0_def s)
  from v p 1 2 show ?thesis by (simp only: s simp_thms)
qed

text \<open>
  C2 (as amended). For a request that passes signature verification and whose body is
  not valid JSON, the parse failure is logged and the response is 400
  \<open>Bad Request\<close>; no event is processed. This holds for both workers.
\<close>

theorem fetch_syntax_error:
  assumes "method_r req = js ''POST''"
    and "JSON_parse h (bodyText req) = JsonSyntaxError"
  shows
    "(verifyLineSignature h (bodyText req) (signature req) (LINE_CHANNEL_SECRET env) \<longrightarrow>
        fetch h env req =
          \<lparr>outcome = Inr (Response (js ''Bad Request'') 400), handlerEffects = [LogParseFailed],
           pipelines = [], joinEffects = []\<rparr>) \<and>
     (verifyLineSignature h (bodyText req) (signature req) (LINE_CHANNEL_SECRET env0) \<longrightarrow>
        fetch0 h env0 req =
          \<lparr>outcome = Inr (Response (js ''Bad Request'') 400), handlerEffects = [LogParseFailed],
           pipelines = [], joinEffects = []\<rparr>)"
  using assms by (simp add: fetch_def fetch0_def)

theorem fetch_syntax_error_witness:
  "method_r (demoRequest (js ''{'')) = js ''POST'' \<and>
   JSON_parse (demoHost JsonSyntaxError answers delivers) (bodyText (demoRequest (js ''{''))) =
     JsonSyntaxError \<and>
   verifyLineSignature (demoHost JsonSyntaxError answers delivers) (bodyText (demoRequest (js ''{'')))
     (signature (demoRequest (js ''{''))) (LINE_CHANNEL_SECRET (demoEnv None)) \<and>
   fetch (demoHost JsonSyntaxError answers delivers) (demoEnv None) (demoRequest (js ''{'')) =
     \<lparr>outcome = Inr (Response (js ''Bad Request'') 400), handlerEffects = [LogParseFailed],
      pipelines = [], joinEffects = []\<rparr>"
proof -
  let ?h = "demoHost JsonSyntaxError answers delivers"
  let ?req = "demoRequest (js ''{'')"
  have m: "method_r ?req = js ''POST''" by (simp add: demoRequest_def)
  have p: "JSON_parse ?h (bodyText ?req) = JsonSyntaxError" by (simp add: demoHost_def)
  have v: "verifyLineSignature ?h (bodyText ?req) (signature ?req)
      (LINE_CHANNEL_SECRET (demoEnv None))"
    using demo_verified(2) [of JsonSyntaxError answers delivers]
    by (simp add: demoRequest_def demoEnv_def)
  have "fetch ?h (demoEnv None) ?req =
      \<lparr>outcome = Inr (Response (js ''Bad Request'') 400), handlerEffects = [LogParseFailed],
       pipelines = [], joinEffects = []\<rparr>"
    by (rule fetch_syntax_error [OF m p, of "demoEnv None" demoEnv0, THEN conjunct1, THEN mp,
          OF v])
  with m p v show ?thesis by (intro conjI)
qed

end
